theory Spec2Isabelle
  imports Main
begin

section \<open>Exceptions (exceptions.h)\<close>

text \<open>
  The two library exceptions carry their message; \<open>runtime_error\<close> stands for any
  exception thrown by a coroutine body.
\<close>

datatype exn = bad_result_access string | bad_task string | runtime_error string

section \<open>Coroutine frames, handles and the store\<close>

text \<open>
  A \<open>std::coroutine_handle\<close> is the address of a coroutine frame, or \<open>nullptr\<close>
  (\<open>None\<close>). A frame holds the promise object, the code that is still to run after the
  current suspension point, and whether the coroutine is suspended at its final
  suspension point (what \<open>done()\<close> reports). The store maps addresses to frames
  (\<open>destroy()\<close> removes the frame), keeps the \<open>m_coroutine\<close> member of every
  generator or task object by the address of that object, and records the side effects
  that coroutine bodies have performed so far.
\<close>

type_synonym coroutine_handle = "nat option"

datatype awaitable = suspend_always | suspend_never

record ('p, 'c) frame =
  promise :: 'p
  body :: 'c
  finished :: bool

record ('p, 'c) world =
  frames :: "nat \<rightharpoonup> ('p, 'c) frame"
  objects :: "nat \<Rightarrow> coroutine_handle"
  trace :: "nat list"

text \<open>
  How a call ends: it returns a value, an exception propagates to the caller, it runs
  into behaviour that C++ leaves undefined (resuming a finished or destroyed coroutine,
  reading through a null or dangling pointer), the awaiting coroutine stays suspended
  and control goes back to whoever resumed it last (\<open>pending\<close>, for \<open>co_await\<close> only),
  or \<open>std::terminate\<close> is called.
\<close>

datatype 'r outcome = returned 'r | raised exn | undefined_behaviour | pending | terminated

text \<open>
  Where control goes when a coroutine suspends: to the coroutine whose handle the
  awaiter's \<open>await_suspend\<close> returned (symmetric transfer), or back to the resumer.
\<close>

datatype control = transfer coroutine_handle | back_to_resumer

text \<open>
  \<open>h.done()\<close>. Calling it on a destroyed frame is undefined in C++; no owner in this
  library keeps a handle to a frame it has destroyed, and the model reads such a frame
  as done, so that it is never resumed.
\<close>

definition coroutine_done :: "('p, 'c) world \<Rightarrow> nat \<Rightarrow> bool" where
  "coroutine_done w a = (case frames w a of None \<Rightarrow> True | Some f \<Rightarrow> finished f)"

definition coroutine_destroy :: "('p, 'c) world \<Rightarrow> nat \<Rightarrow> ('p, 'c) world" where
  "coroutine_destroy w a = w\<lparr>frames := (frames w)(a := None)\<rparr>"

subsection \<open>detail.h\<close>

definition is_good_handle :: "('p, 'c) world \<Rightarrow> coroutine_handle \<Rightarrow> bool" where
  "is_good_handle w h = (case h of None \<Rightarrow> False | Some a \<Rightarrow> \<not> coroutine_done w a)"

definition is_ready :: "('p, 'c) world \<Rightarrow> coroutine_handle \<Rightarrow> bool" where
  "is_ready w h = (case h of None \<Rightarrow> True | Some a \<Rightarrow> coroutine_done w a)"

definition check_coroutine :: "coroutine_handle \<Rightarrow> unit outcome" where
  "check_coroutine h =
     (case h of None \<Rightarrow> raised (bad_task ''task is empty or destroyed'') | Some a \<Rightarrow> returned ())"

section \<open>generator.h\<close>

subsection \<open>Promise type\<close>

record promise_exception =
  m_exception :: "exn option"

record 'a generator_promise = promise_exception +
  m_value :: "'a option"

text \<open>
  A generator body is a sequence of statements; running off its end is \<open>co_return\<close>.
  \<open>effect n\<close> is a statement with the observable side effect \<open>n\<close>. There is no
  \<open>co_await\<close>: \<open>await_transform\<close> is deleted.
\<close>

datatype 'a stmt = effect nat | co_yield 'a | throw exn

type_synonym 'a generator_frame = "('a generator_promise, 'a stmt list) frame"
type_synonym 'a generator_world = "('a generator_promise, 'a stmt list) world"

definition generator_initial_suspend :: awaitable where
  "generator_initial_suspend = suspend_always"

definition generator_final_suspend :: awaitable where
  "generator_final_suspend = suspend_always"

definition generator_yield_value :: "'a generator_promise \<Rightarrow> 'a \<Rightarrow> 'a generator_promise \<times> awaitable" where
  "generator_yield_value p v = (p\<lparr>m_value := Some v\<rparr>, suspend_always)"

definition generator_unhandled_exception :: "'a generator_promise \<Rightarrow> exn \<Rightarrow> 'a generator_promise" where
  "generator_unhandled_exception p e = p\<lparr>m_exception := Some e\<rparr>"

definition generator_return_void :: "'a generator_promise \<Rightarrow> 'a generator_promise" where
  "generator_return_void p = p"

text \<open>\<open>value()\<close> reads through \<open>m_value\<close>; through a null pointer that is undefined.\<close>

definition generator_value :: "'a generator_promise \<Rightarrow> 'a outcome" where
  "generator_value p = (case m_value p of None \<Rightarrow> undefined_behaviour | Some v \<Rightarrow> returned v)"

text \<open>
  \<open>std::rethrow_exception(std::move(this->m_exception))\<close>: the exception pointer is
  moved into the call, which leaves the member null.
\<close>

definition generator_rethrow_if_exception ::
  "'a generator_promise \<Rightarrow> unit outcome \<times> 'a generator_promise" where
  "generator_rethrow_if_exception p =
     (case m_exception p of
        Some e \<Rightarrow> (raised e, p\<lparr>m_exception := None\<rparr>)
      | None \<Rightarrow> (returned (), p))"

subsection \<open>Resuming the body\<close>

text \<open>
  What the compiler generates around the promise: the body runs until the awaiter of a
  \<open>co_yield\<close> suspends it, until it returns (\<open>return_void\<close>, then the final suspension
  point) or until an exception leaves it (\<open>unhandled_exception\<close>, then the final
  suspension point). \<open>final_suspend\<close> is \<open>suspend_always\<close>, so the frame stays, done.
\<close>

fun generator_run ::
  "'a generator_promise \<Rightarrow> 'a stmt list \<Rightarrow> nat list \<Rightarrow> 'a generator_frame \<times> nat list" where
  "generator_run p [] tr =
     (\<lparr>promise = generator_return_void p, body = [], finished = True\<rparr>, tr)"
| "generator_run p (effect n # ss) tr = generator_run p ss (tr @ [n])"
| "generator_run p (co_yield v # ss) tr =
     (case generator_yield_value p v of
        (p', suspend_always) \<Rightarrow> (\<lparr>promise = p', body = ss, finished = False\<rparr>, tr)
      | (p', suspend_never) \<Rightarrow> generator_run p' ss tr)"
| "generator_run p (throw e # ss) tr =
     (\<lparr>promise = generator_unhandled_exception p e, body = [], finished = True\<rparr>, tr)"

text \<open>
  \<open>h.resume()\<close>; \<open>None\<close> where C++ leaves it undefined (a finished or destroyed
  coroutine).
\<close>

definition generator_resume :: "'a generator_world \<Rightarrow> nat \<Rightarrow> 'a generator_world option" where
  "generator_resume w a =
     (case frames w a of
        None \<Rightarrow> None
      | Some f \<Rightarrow>
          if finished f then None
          else (case generator_run (promise f) (body f) (trace w) of
                  (f', tr) \<Rightarrow> Some (w\<lparr>frames := (frames w)(a \<mapsto> f'), trace := tr\<rparr>)))"

text \<open>\<open>h.promise().rethrow_if_exception()\<close> on the frame at address \<open>a\<close>.\<close>

definition generator_promise_rethrow ::
  "'a generator_world \<Rightarrow> nat \<Rightarrow> unit outcome \<times> 'a generator_world" where
  "generator_promise_rethrow w a =
     (case frames w a of
        None \<Rightarrow> (undefined_behaviour, w)
      | Some f \<Rightarrow>
          (case generator_rethrow_if_exception (promise f) of
             (r, p') \<Rightarrow> (r, w\<lparr>frames := (frames w)(a \<mapsto> f\<lparr>promise := p'\<rparr>)\<rparr>)))"

text \<open>
  Calling a generator coroutine function: the frame is allocated at address \<open>a\<close> (the
  allocator's choice), \<open>get_return_object\<close> builds the generator object at address
  \<open>this\<close>, and the body starts only where \<open>initial_suspend\<close> does not suspend.
\<close>

definition generator_call ::
  "'a generator_world \<Rightarrow> nat \<Rightarrow> nat \<Rightarrow> 'a stmt list \<Rightarrow> 'a generator_world" where
  "generator_call w this a b =
     (let w1 = w\<lparr>frames := (frames w)(a \<mapsto>
                  \<lparr>promise = \<lparr>m_exception = None, m_value = None\<rparr>, body = b, finished = False\<rparr>),
                objects := (objects w)(this := Some a)\<rparr>
      in case generator_initial_suspend of
           suspend_always \<Rightarrow> w1
         | suspend_never \<Rightarrow> (case generator_resume w1 a of None \<Rightarrow> w1 | Some w2 \<Rightarrow> w2))"

subsection \<open>generator::iterator\<close>

text \<open>
  The iterator classes of \<open>generator\<close> and of \<open>async_generator\<close> both hold one member,
  the coroutine handle; one type serves both.
\<close>

datatype iterator = iterator (m_coroutine: coroutine_handle)

definition generator_iterator_eq ::
  "'a generator_world \<Rightarrow> iterator \<Rightarrow> iterator \<Rightarrow> bool" where
  "generator_iterator_eq w i other =
     (m_coroutine i = m_coroutine other \<or>
      (\<not> is_good_handle w (m_coroutine i) \<and> \<not> is_good_handle w (m_coroutine other)))"

definition generator_iterator_inc ::
  "'a generator_world \<Rightarrow> iterator \<Rightarrow> iterator outcome \<times> 'a generator_world" where
  "generator_iterator_inc w i =
     (case m_coroutine i of
        None \<Rightarrow> (raised (bad_result_access ''Incrementing past the end of the generator''), w)
      | Some a \<Rightarrow>
          if is_good_handle w (Some a) then
            (case generator_resume w a of
               None \<Rightarrow> (undefined_behaviour, w)
             | Some w1 \<Rightarrow>
                 if coroutine_done w1 a then
                   (case generator_promise_rethrow w1 a of
                      (returned u, w2) \<Rightarrow> (returned i, w2)
                    | (raised e, w2) \<Rightarrow> (raised e, w2)
                    | (r, w2) \<Rightarrow> (undefined_behaviour, w2))
                 else (returned i, w1))
          else (raised (bad_result_access ''Incrementing past the end of the generator''), w))"

definition generator_iterator_deref :: "'a generator_world \<Rightarrow> iterator \<Rightarrow> 'a outcome" where
  "generator_iterator_deref w i =
     (case m_coroutine i of
        None \<Rightarrow> raised (bad_result_access ''Access past the end of the generator'')
      | Some a \<Rightarrow>
          if is_good_handle w (Some a) then
            (case frames w a of
               None \<Rightarrow> undefined_behaviour
             | Some f \<Rightarrow> generator_value (promise f))
          else raised (bad_result_access ''Access past the end of the generator''))"

subsection \<open>generator\<close>

definition generator_advance :: "'a generator_world \<Rightarrow> nat \<Rightarrow> unit outcome \<times> 'a generator_world" where
  "generator_advance w this =
     (case objects w this of
        None \<Rightarrow> (returned (), w)
      | Some a \<Rightarrow>
          if is_good_handle w (Some a) then
            (case generator_resume w a of
               None \<Rightarrow> (undefined_behaviour, w)
             | Some w1 \<Rightarrow>
                 if coroutine_done w1 a then generator_promise_rethrow w1 a else (returned (), w1))
          else (returned (), w))"

definition generator_begin ::
  "'a generator_world \<Rightarrow> nat \<Rightarrow> iterator outcome \<times> 'a generator_world" where
  "generator_begin w this =
     (case generator_advance w this of
        (returned u, w1) \<Rightarrow> (returned (iterator (objects w1 this)), w1)
      | (raised e, w1) \<Rightarrow> (raised e, w1)
      | (r, w1) \<Rightarrow> (undefined_behaviour, w1))"

definition generator_end :: iterator where
  "generator_end = iterator None"

text \<open>Move constructor, move assignment and destructor, on the objects in the store.\<close>

definition generator_move_construct :: "'a generator_world \<Rightarrow> nat \<Rightarrow> nat \<Rightarrow> 'a generator_world" where
  "generator_move_construct w this other =
     (let h = objects w other;
          w1 = w\<lparr>objects := (objects w)(other := None)\<rparr>
      in w1\<lparr>objects := (objects w1)(this := h)\<rparr>)"

definition generator_move_assign :: "'a generator_world \<Rightarrow> nat \<Rightarrow> nat \<Rightarrow> 'a generator_world" where
  "generator_move_assign w this other =
     (if this \<noteq> other then
        (let w1 = (case objects w this of None \<Rightarrow> w | Some a \<Rightarrow> coroutine_destroy w a);
             h = objects w1 other;
             w2 = w1\<lparr>objects := (objects w1)(other := None)\<rparr>
         in w2\<lparr>objects := (objects w2)(this := h)\<rparr>)
      else w)"

definition generator_destructor :: "'a generator_world \<Rightarrow> nat \<Rightarrow> 'a generator_world" where
  "generator_destructor w this =
     (case objects w this of None \<Rightarrow> w | Some a \<Rightarrow> coroutine_destroy w a)"

section \<open>async_generator.h\<close>

subsection \<open>Promise type\<close>

record 'a async_generator_promise = promise_exception +
  m_current_value :: "'a option"
  m_consumer :: coroutine_handle

text \<open>
  The body of an asynchronous generator may also \<open>co_await\<close>; the awaitables of the
  model are the two of the standard library.
\<close>

datatype 'a async_stmt = sync "'a stmt" | co_await awaitable

type_synonym 'a async_generator_frame = "('a async_generator_promise, 'a async_stmt list) frame"
type_synonym 'a async_generator_world = "('a async_generator_promise, 'a async_stmt list) world"

datatype yield_op = yield_op coroutine_handle

definition yield_op_await_ready :: "yield_op \<Rightarrow> bool" where
  "yield_op_await_ready op = False"

fun yield_op_await_suspend :: "yield_op \<Rightarrow> coroutine_handle" where
  "yield_op_await_suspend (yield_op consumer) = consumer"

definition async_generator_initial_suspend :: awaitable where
  "async_generator_initial_suspend = suspend_always"

definition async_generator_final_suspend ::
  "'a async_generator_promise \<Rightarrow> 'a async_generator_promise \<times> yield_op" where
  "async_generator_final_suspend p = (p\<lparr>m_current_value := None\<rparr>, yield_op (m_consumer p))"

definition async_generator_unhandled_exception ::
  "'a async_generator_promise \<Rightarrow> exn \<Rightarrow> 'a async_generator_promise" where
  "async_generator_unhandled_exception p e = p\<lparr>m_exception := Some e\<rparr>"

definition async_generator_return_void :: "'a async_generator_promise \<Rightarrow> 'a async_generator_promise" where
  "async_generator_return_void p = p"

definition async_generator_yield_value ::
  "'a async_generator_promise \<Rightarrow> 'a \<Rightarrow> 'a async_generator_promise \<times> yield_op" where
  "async_generator_yield_value p v = (p\<lparr>m_current_value := Some v\<rparr>, yield_op (m_consumer p))"


definition async_generator_finished :: "'a async_generator_promise \<Rightarrow> bool" where
  "async_generator_finished p = (m_current_value p = None)"

definition async_generator_rethrow_if_unhandled_exception ::
  "'a async_generator_promise \<Rightarrow> unit outcome \<times> 'a async_generator_promise" where
  "async_generator_rethrow_if_unhandled_exception p =
     (case m_exception p of
        Some e \<Rightarrow> (raised e, p\<lparr>m_exception := None\<rparr>)
      | None \<Rightarrow> (returned (), p))"

definition async_generator_set_consumer ::
  "'a async_generator_promise \<Rightarrow> coroutine_handle \<Rightarrow> 'a async_generator_promise" where
  "async_generator_set_consumer p consumer = p\<lparr>m_consumer := consumer\<rparr>"

subsection \<open>Resuming the body\<close>

text \<open>
  The producer runs until it suspends: at a \<open>co_yield\<close> and at the final suspension
  point the awaiter is a \<open>yield_op\<close>, which hands control to the consumer; at
  \<open>co_await std::suspend_always{}\<close> control goes back to the resumer.
\<close>

fun async_generator_run ::
  "'a async_generator_promise \<Rightarrow> 'a async_stmt list \<Rightarrow> nat list \<Rightarrow>
     ('a async_generator_frame \<times> nat list) \<times> control" where
  "async_generator_run p [] tr =
     (case async_generator_final_suspend (async_generator_return_void p) of
        (p', op) \<Rightarrow> ((\<lparr>promise = p', body = [], finished = True\<rparr>, tr),
                     transfer (yield_op_await_suspend op)))"
| "async_generator_run p (sync (effect n) # ss) tr = async_generator_run p ss (tr @ [n])"
| "async_generator_run p (sync (co_yield v) # ss) tr =
     (case async_generator_yield_value p v of
        (p', op) \<Rightarrow>
          if yield_op_await_ready op then async_generator_run p' ss tr
          else ((\<lparr>promise = p', body = ss, finished = False\<rparr>, tr),
                transfer (yield_op_await_suspend op)))"
| "async_generator_run p (sync (throw e) # ss) tr =
     (case async_generator_final_suspend (async_generator_unhandled_exception p e) of
        (p', op) \<Rightarrow> ((\<lparr>promise = p', body = [], finished = True\<rparr>, tr),
                     transfer (yield_op_await_suspend op)))"
| "async_generator_run p (co_await suspend_never # ss) tr = async_generator_run p ss tr"
| "async_generator_run p (co_await suspend_always # ss) tr =
     ((\<lparr>promise = p, body = ss, finished = False\<rparr>, tr), back_to_resumer)"

definition async_generator_resume ::
  "'a async_generator_world \<Rightarrow> nat \<Rightarrow> ('a async_generator_world \<times> control) option" where
  "async_generator_resume w a =
     (case frames w a of
        None \<Rightarrow> None
      | Some f \<Rightarrow>
          if finished f then None
          else (case async_generator_run (promise f) (body f) (trace w) of
                  ((f', tr), ctl) \<Rightarrow> Some (w\<lparr>frames := (frames w)(a \<mapsto> f'), trace := tr\<rparr>, ctl)))"

definition async_generator_call ::
  "'a async_generator_world \<Rightarrow> nat \<Rightarrow> nat \<Rightarrow> 'a async_stmt list \<Rightarrow> 'a async_generator_world" where
  "async_generator_call w this a b =
     (let w1 = w\<lparr>frames := (frames w)(a \<mapsto>
                  \<lparr>promise = \<lparr>m_exception = None, m_current_value = None, m_consumer = None\<rparr>,
                   body = b, finished = False\<rparr>),
                objects := (objects w)(this := Some a)\<rparr>
      in case async_generator_initial_suspend of
           suspend_always \<Rightarrow> w1
         | suspend_never \<Rightarrow> (case async_generator_resume w1 a of None \<Rightarrow> w1 | Some (w2, ctl) \<Rightarrow> w2))"

subsection \<open>async_generator::iterator::advance_op\<close>

text \<open>
  \<open>m_promise\<close> is a pointer to the producer's promise. The default constructor sets it
  to \<open>nullptr\<close>. The constructor from a producer handle takes the address of the
  handle's promise: for the handle of a frame this is a pointer into that frame; for a
  null handle it is a pointer that is not null and points to no promise.
\<close>

datatype promise_ptr = null_promise | promise_of coroutine_handle

datatype advance_op = advance_op (m_promise: promise_ptr) (m_producer: coroutine_handle)

definition advance_op_default :: advance_op where
  "advance_op_default = advance_op null_promise None"

definition advance_op_of :: "coroutine_handle \<Rightarrow> advance_op" where
  "advance_op_of producer = advance_op (promise_of producer) producer"

definition advance_op_await_ready :: "advance_op \<Rightarrow> bool" where
  "advance_op_await_ready op = (m_promise op = null_promise)"

definition advance_op_await_suspend ::
  "'a async_generator_world \<Rightarrow> advance_op \<Rightarrow> coroutine_handle \<Rightarrow>
     coroutine_handle outcome \<times> 'a async_generator_world" where
  "advance_op_await_suspend w op consumer =
     (case m_promise op of
        null_promise \<Rightarrow> (undefined_behaviour, w)
      | promise_of None \<Rightarrow> (undefined_behaviour, w)
      | promise_of (Some a) \<Rightarrow>
          (case frames w a of
             None \<Rightarrow> (undefined_behaviour, w)
           | Some f \<Rightarrow>
               (returned (m_producer op),
                w\<lparr>frames := (frames w)(a \<mapsto>
                     f\<lparr>promise := async_generator_set_consumer (promise f) consumer\<rparr>)\<rparr>)))"

definition advance_op_await_resume ::
  "'a async_generator_world \<Rightarrow> advance_op \<Rightarrow> iterator outcome \<times> 'a async_generator_world" where
  "advance_op_await_resume w op =
     (case m_promise op of
        null_promise \<Rightarrow> (returned (iterator None), w)
      | promise_of None \<Rightarrow> (undefined_behaviour, w)
      | promise_of (Some a) \<Rightarrow>
          (case frames w a of
             None \<Rightarrow> (undefined_behaviour, w)
           | Some f \<Rightarrow>
               if async_generator_finished (promise f) then
                 (case async_generator_rethrow_if_unhandled_exception (promise f) of
                    (raised e, p') \<Rightarrow> (raised e, w\<lparr>frames := (frames w)(a \<mapsto> f\<lparr>promise := p'\<rparr>)\<rparr>)
                  | (r, p') \<Rightarrow> (returned (iterator None), w\<lparr>frames := (frames w)(a \<mapsto> f\<lparr>promise := p'\<rparr>)\<rparr>))
               else (returned (iterator (Some a)), w)))"

text \<open>
  \<open>co_await op\<close> evaluated in the coroutine whose frame is at address \<open>c\<close>: without
  suspension where the operation is ready; otherwise the consumer suspends,
  \<open>await_suspend\<close> names the producer, the producer is resumed, and the consumer goes on
  with \<open>await_resume\<close> once control is handed back to it.
\<close>

definition co_await_advance_op ::
  "'a async_generator_world \<Rightarrow> nat \<Rightarrow> advance_op \<Rightarrow> iterator outcome \<times> 'a async_generator_world" where
  "co_await_advance_op w c op =
     (if advance_op_await_ready op then advance_op_await_resume w op
      else (case advance_op_await_suspend w op (Some c) of
              (returned (Some a), w1) \<Rightarrow>
                (case async_generator_resume w1 a of
                   None \<Rightarrow> (undefined_behaviour, w1)
                 | Some (w2, transfer h) \<Rightarrow>
                     if h = Some c then advance_op_await_resume w2 op else (pending, w2)
                 | Some (w2, back_to_resumer) \<Rightarrow> (pending, w2))
            | (r, w1) \<Rightarrow> (undefined_behaviour, w1)))"

subsection \<open>async_generator::iterator and async_generator\<close>

definition async_generator_iterator_inc ::
  "'a async_generator_world \<Rightarrow> iterator \<Rightarrow> advance_op outcome" where
  "async_generator_iterator_inc w i =
     (if is_good_handle w (m_coroutine i) then returned (advance_op_of (m_coroutine i))
      else raised (bad_result_access ''Incrementing past the end of the generator''))"


definition async_generator_iterator_eq_sentinel :: "'a async_generator_world \<Rightarrow> iterator \<Rightarrow> bool" where
  "async_generator_iterator_eq_sentinel w it = (\<not> is_good_handle w (m_coroutine it))"

definition async_generator_iterator_eq ::
  "'a async_generator_world \<Rightarrow> iterator \<Rightarrow> iterator \<Rightarrow> bool" where
  "async_generator_iterator_eq w i other =
     (m_coroutine i = m_coroutine other \<or>
      (\<not> is_good_handle w (m_coroutine i) \<and> \<not> is_good_handle w (m_coroutine other)))"

definition async_generator_begin :: "'a async_generator_world \<Rightarrow> nat \<Rightarrow> advance_op" where
  "async_generator_begin w this =
     (if \<not> is_good_handle w (objects w this) then advance_op_default
      else advance_op_of (objects w this))"

text \<open>Move constructor, move assignment and destructor.\<close>

definition async_generator_move_construct ::
  "'a async_generator_world \<Rightarrow> nat \<Rightarrow> nat \<Rightarrow> 'a async_generator_world" where
  "async_generator_move_construct w this other =
     (let h = objects w other;
          w1 = w\<lparr>objects := (objects w)(other := None)\<rparr>
      in w1\<lparr>objects := (objects w1)(this := h)\<rparr>)"

definition async_generator_move_assign ::
  "'a async_generator_world \<Rightarrow> nat \<Rightarrow> nat \<Rightarrow> 'a async_generator_world" where
  "async_generator_move_assign w this other =
     (if this \<noteq> other then
        (let w1 = (case objects w this of None \<Rightarrow> w | Some a \<Rightarrow> coroutine_destroy w a);
             h = objects w1 other;
             w2 = w1\<lparr>objects := (objects w1)(other := None)\<rparr>
         in w2\<lparr>objects := (objects w2)(this := h)\<rparr>)
      else w)"

definition async_generator_destructor :: "'a async_generator_world \<Rightarrow> nat \<Rightarrow> 'a async_generator_world" where
  "async_generator_destructor w this =
     (case objects w this of None \<Rightarrow> w | Some a \<Rightarrow> coroutine_destroy w a)"

section \<open>eager_task.h\<close>


definition eager_task_final_suspend :: awaitable where
  "eager_task_final_suspend = suspend_never"


section \<open>sync_generator_adapter.h\<close>










section \<open>task.h\<close>

subsection \<open>Promise types\<close>

record promise_base = promise_exception +
  m_next :: coroutine_handle

record 'a promise_type = promise_base +
  m_result :: "'a option"

text \<open>
  A task body is a sequence of statements that ends in \<open>co_return\<close> or in an exception
  that leaves the body.
\<close>

datatype task_stmt = task_effect nat | task_co_await awaitable

datatype 'a task_end = co_return 'a | task_throw exn

type_synonym 'a task_body = "task_stmt list \<times> 'a task_end"

definition promise_base_unhandled_exception :: "'z promise_base_scheme \<Rightarrow> exn \<Rightarrow> 'z promise_base_scheme" where
  "promise_base_unhandled_exception p e = p\<lparr>m_exception := Some e\<rparr>"

definition promise_base_initial_suspend :: awaitable where
  "promise_base_initial_suspend = suspend_always"

text \<open>
  \<open>final_suspend\<close> returns a \<open>nested_awaiter\<close>, which is never ready and whose
  \<open>await_suspend\<close> names the continuation, or \<open>std::noop_coroutine()\<close> without one.
\<close>

definition promise_base_final_suspend :: "'z promise_base_scheme \<Rightarrow> control" where
  "promise_base_final_suspend p =
     (case m_next p of Some n \<Rightarrow> transfer (Some n) | None \<Rightarrow> back_to_resumer)"

definition promise_base_set_next :: "'z promise_base_scheme \<Rightarrow> coroutine_handle \<Rightarrow> 'z promise_base_scheme" where
  "promise_base_set_next p n = p\<lparr>m_next := n\<rparr>"

text \<open>\<open>rethrow_if_exception() const\<close> copies the exception pointer: the member stays.\<close>

definition promise_base_rethrow_if_exception :: "'z promise_base_scheme \<Rightarrow> unit outcome" where
  "promise_base_rethrow_if_exception p =
     (case m_exception p of Some e \<Rightarrow> raised e | None \<Rightarrow> returned ())"

text \<open>
  \<open>promise_type<T>\<close>. The result slot is a \<open>std::optional\<close>, or a pointer for an lvalue
  reference \<open>T\<close>; in both cases it is empty until \<open>return_value\<close>.
\<close>

definition promise_type_return_value :: "'a promise_type \<Rightarrow> 'a \<Rightarrow> 'a promise_type" where
  "promise_type_return_value p res = p\<lparr>m_result := Some res\<rparr>"

definition promise_type_result_value :: "'a promise_type \<Rightarrow> 'a outcome" where
  "promise_type_result_value p =
     (case promise_base_rethrow_if_exception p of
        raised e \<Rightarrow> raised e
      | r \<Rightarrow>
          (case m_result p of
             Some v \<Rightarrow> returned v
           | None \<Rightarrow> raised (bad_result_access ''task<T> result accessed before it was set'')))"

text \<open>\<open>promise_type<void>\<close>.\<close>

definition promise_void_return_void :: "promise_base \<Rightarrow> unit \<Rightarrow> promise_base" where
  "promise_void_return_void p u = p"

definition promise_void_result_value :: "promise_base \<Rightarrow> unit outcome" where
  "promise_void_result_value p = promise_base_rethrow_if_exception p"

text \<open>
  The class template \<open>task<Result>\<close> is written once over its promise type. The
  operations of the promise that differ between \<open>promise_type<T>\<close> and
  \<open>promise_type<void>\<close> are the template argument of the model.
\<close>

record ('p, 'a) promise_ops =
  initial_promise :: 'p
  return_op :: "'p \<Rightarrow> 'a \<Rightarrow> 'p"
  result_value_op :: "'p \<Rightarrow> 'a outcome"

definition promise_T :: "('a promise_type, 'a) promise_ops" where
  "promise_T =
     \<lparr>initial_promise = \<lparr>m_exception = None, m_next = None, m_result = None\<rparr>,
      return_op = promise_type_return_value,
      result_value_op = promise_type_result_value\<rparr>"

definition promise_void :: "(promise_base, unit) promise_ops" where
  "promise_void =
     \<lparr>initial_promise = \<lparr>m_exception = None, m_next = None\<rparr>,
      return_op = promise_void_return_void,
      result_value_op = promise_void_result_value\<rparr>"

subsection \<open>Resuming the body\<close>

fun task_run ::
  "('z promise_base_scheme, 'a) promise_ops \<Rightarrow> 'z promise_base_scheme \<Rightarrow> task_stmt list \<Rightarrow>
     'a task_end \<Rightarrow> nat list \<Rightarrow>
     (('z promise_base_scheme, 'a task_body) frame \<times> nat list) \<times> control" where
  "task_run P p [] (co_return v) tr =
     (let p' = return_op P p v
      in ((\<lparr>promise = p', body = ([], co_return v), finished = True\<rparr>, tr),
          promise_base_final_suspend p'))"
| "task_run P p [] (task_throw e) tr =
     (let p' = promise_base_unhandled_exception p e
      in ((\<lparr>promise = p', body = ([], task_throw e), finished = True\<rparr>, tr),
          promise_base_final_suspend p'))"
| "task_run P p (task_effect n # ss) fin tr = task_run P p ss fin (tr @ [n])"
| "task_run P p (task_co_await suspend_never # ss) fin tr = task_run P p ss fin tr"
| "task_run P p (task_co_await suspend_always # ss) fin tr =
     ((\<lparr>promise = p, body = (ss, fin), finished = False\<rparr>, tr), back_to_resumer)"

text \<open>
  For the statements of a task body: the side effects in order, the statements in which
  every awaited operation completes at once, and the number of awaited operations that
  suspend.
\<close>

fun task_effects :: "task_stmt list \<Rightarrow> nat list" where
  "task_effects [] = []"
| "task_effects (task_effect n # ss) = n # task_effects ss"
| "task_effects (task_co_await aw # ss) = task_effects ss"

fun task_synchronous :: "task_stmt list \<Rightarrow> bool" where
  "task_synchronous [] = True"
| "task_synchronous (task_co_await suspend_always # ss) = False"
| "task_synchronous (s # ss) = task_synchronous ss"

fun task_suspensions :: "task_stmt list \<Rightarrow> nat" where
  "task_suspensions [] = 0"
| "task_suspensions (task_co_await suspend_always # ss) = Suc (task_suspensions ss)"
| "task_suspensions (s # ss) = task_suspensions ss"

definition task_coroutine_resume ::
  "('z promise_base_scheme, 'a) promise_ops \<Rightarrow> ('z promise_base_scheme, 'a task_body) world \<Rightarrow> nat \<Rightarrow>
     (('z promise_base_scheme, 'a task_body) world \<times> control) option" where
  "task_coroutine_resume P w a =
     (case frames w a of
        None \<Rightarrow> None
      | Some f \<Rightarrow>
          if finished f then None
          else (case task_run P (promise f) (fst (body f)) (snd (body f)) (trace w) of
                  ((f', tr), ctl) \<Rightarrow> Some (w\<lparr>frames := (frames w)(a \<mapsto> f'), trace := tr\<rparr>, ctl)))"

definition task_call ::
  "('z promise_base_scheme, 'a) promise_ops \<Rightarrow> ('z promise_base_scheme, 'a task_body) world \<Rightarrow>
     nat \<Rightarrow> nat \<Rightarrow> 'a task_body \<Rightarrow> ('z promise_base_scheme, 'a task_body) world" where
  "task_call P w this a b =
     (let w1 = w\<lparr>frames := (frames w)(a \<mapsto>
                  \<lparr>promise = initial_promise P, body = b, finished = False\<rparr>),
                objects := (objects w)(this := Some a)\<rparr>
      in case promise_base_initial_suspend of
           suspend_always \<Rightarrow> w1
         | suspend_never \<Rightarrow> (case task_coroutine_resume P w1 a of None \<Rightarrow> w1 | Some (w2, ctl) \<Rightarrow> w2))"

subsection \<open>task\<close>

definition task_move_construct :: "('p, 'c) world \<Rightarrow> nat \<Rightarrow> nat \<Rightarrow> ('p, 'c) world" where
  "task_move_construct w this other =
     (let h = objects w other;
          w1 = w\<lparr>objects := (objects w)(other := None)\<rparr>
      in w1\<lparr>objects := (objects w1)(this := h)\<rparr>)"

definition task_move_assign :: "('p, 'c) world \<Rightarrow> nat \<Rightarrow> nat \<Rightarrow> ('p, 'c) world" where
  "task_move_assign w this other =
     (if this \<noteq> other then
        (let w1 = (case objects w this of None \<Rightarrow> w | Some a \<Rightarrow> coroutine_destroy w a);
             h = objects w1 other;
             w2 = w1\<lparr>objects := (objects w1)(other := None)\<rparr>
         in w2\<lparr>objects := (objects w2)(this := h)\<rparr>)
      else w)"

definition task_destructor :: "('p, 'c) world \<Rightarrow> nat \<Rightarrow> ('p, 'c) world" where
  "task_destructor w this =
     (case objects w this of None \<Rightarrow> w | Some a \<Rightarrow> coroutine_destroy w a)"

definition task_is_ready :: "('p, 'c) world \<Rightarrow> nat \<Rightarrow> bool" where
  "task_is_ready w this = is_ready w (objects w this)"

text \<open>
  \<open>resume()\<close>. When the body finishes while a continuation is set, \<open>final_suspend\<close>
  transfers control to that coroutine, which runs inside the call, from its
  \<open>co_await\<close> on; the second component of the result names it. What that coroutine does
  is the client's code; the value returned is \<open>!is_ready()\<close> in the store that the
  task's own coroutine has left.
\<close>

definition task_resume ::
  "('z promise_base_scheme, 'a) promise_ops \<Rightarrow> ('z promise_base_scheme, 'a task_body) world \<Rightarrow> nat \<Rightarrow>
     (bool outcome \<times> control) \<times> ('z promise_base_scheme, 'a task_body) world" where
  "task_resume P w this =
     (if \<not> task_is_ready w this then
        (case objects w this of
           None \<Rightarrow> ((undefined_behaviour, back_to_resumer), w)
         | Some a \<Rightarrow>
             (case task_coroutine_resume P w a of
                None \<Rightarrow> ((undefined_behaviour, back_to_resumer), w)
              | Some (w1, ctl) \<Rightarrow> ((returned (\<not> task_is_ready w1 this), ctl), w1)))
      else ((returned (\<not> task_is_ready w this), back_to_resumer), w))"

definition task_destroy :: "('p, 'c) world \<Rightarrow> nat \<Rightarrow> bool \<times> ('p, 'c) world" where
  "task_destroy w this =
     (case objects w this of
        Some a \<Rightarrow> (True, (coroutine_destroy w a)\<lparr>objects := (objects w)(this := None)\<rparr>)
      | None \<Rightarrow> (False, w))"

text \<open>
  \<open>result_value()\<close>: \<open>check_coroutine\<close>, then the promise's \<open>result_value()\<close>. The
  three overloads differ in the reference they return, not in what they check.
\<close>

definition task_result_value ::
  "('p, 'a) promise_ops \<Rightarrow> ('p, 'c) world \<Rightarrow> nat \<Rightarrow> 'a outcome" where
  "task_result_value P w this =
     (case check_coroutine (objects w this) of
        raised e \<Rightarrow> raised e
      | r \<Rightarrow>
          (case objects w this of
             None \<Rightarrow> undefined_behaviour
           | Some a \<Rightarrow>
               (case frames w a of
                  None \<Rightarrow> undefined_behaviour
                | Some f \<Rightarrow> result_value_op P (promise f))))"

subsection \<open>Awaiting a task\<close>

definition awaiter_await_ready :: "('p, 'c) world \<Rightarrow> coroutine_handle \<Rightarrow> bool" where
  "awaiter_await_ready w h = is_ready w h"

definition awaiter_await_suspend ::
  "('z promise_base_scheme, 'c) world \<Rightarrow> coroutine_handle \<Rightarrow> coroutine_handle \<Rightarrow>
     coroutine_handle outcome \<times> ('z promise_base_scheme, 'c) world" where
  "awaiter_await_suspend w h awaiting =
     (case h of
        None \<Rightarrow> (undefined_behaviour, w)
      | Some a \<Rightarrow>
          (case frames w a of
             None \<Rightarrow> (undefined_behaviour, w)
           | Some f \<Rightarrow>
               (returned h,
                w\<lparr>frames := (frames w)(a \<mapsto> f\<lparr>promise := promise_base_set_next (promise f) awaiting\<rparr>)\<rparr>)))"

definition awaiter_await_resume ::
  "('p, 'a) promise_ops \<Rightarrow> ('p, 'c) world \<Rightarrow> coroutine_handle \<Rightarrow> 'a outcome" where
  "awaiter_await_resume P w h =
     (case check_coroutine h of
        raised e \<Rightarrow> raised e
      | r \<Rightarrow>
          (case h of
             None \<Rightarrow> undefined_behaviour
           | Some a \<Rightarrow>
               (case frames w a of
                  None \<Rightarrow> undefined_behaviour
                | Some f \<Rightarrow> result_value_op P (promise f))))"

text \<open>\<open>co_await t\<close> for the task object at \<open>this\<close>, in the coroutine whose frame is at \<open>c\<close>.\<close>

definition task_co_await ::
  "('z promise_base_scheme, 'a) promise_ops \<Rightarrow> ('z promise_base_scheme, 'a task_body) world \<Rightarrow>
     nat \<Rightarrow> nat \<Rightarrow> 'a outcome \<times> ('z promise_base_scheme, 'a task_body) world" where
  "task_co_await P w c this =
     (let h = objects w this in
      if awaiter_await_ready w h then (awaiter_await_resume P w h, w)
      else (case awaiter_await_suspend w h (Some c) of
              (returned (Some a), w1) \<Rightarrow>
                (case task_coroutine_resume P w1 a of
                   None \<Rightarrow> (undefined_behaviour, w1)
                 | Some (w2, transfer t) \<Rightarrow>
                     if t = Some c then (awaiter_await_resume P w2 h, w2) else (pending, w2)
                 | Some (w2, back_to_resumer) \<Rightarrow> (pending, w2))
            | (r, w1) \<Rightarrow> (undefined_behaviour, w1)))"

subsection \<open>Driving a task by hand\<close>

text \<open>
  The coroutine of a task resumed again and again by its handle, each time after it has
  given control back to the resumer: \<open>k + 1\<close> resumptions, with the store and the
  transfer of control of the last one. \<open>None\<close> says that a resumption was undefined or
  that control went elsewhere before the last one.
\<close>

fun task_coroutine_resume_times ::
  "nat \<Rightarrow> ('z promise_base_scheme, 'a) promise_ops \<Rightarrow> ('z promise_base_scheme, 'a task_body) world \<Rightarrow>
     nat \<Rightarrow> (('z promise_base_scheme, 'a task_body) world \<times> control) option" where
  "task_coroutine_resume_times 0 P w a = task_coroutine_resume P w a"
| "task_coroutine_resume_times (Suc k) P w a =
     (case task_coroutine_resume P w a of
        Some (w1, back_to_resumer) \<Rightarrow> task_coroutine_resume_times k P w1 a
      | Some (w1, transfer h) \<Rightarrow> None
      | None \<Rightarrow> None)"

section \<open>Client code: loops over generators\<close>

text \<open>
  Calling \<open>begin()\<close> again and again, as the tests \<open>AdvanceWithBegin\<close> and
  \<open>AllThingsEnd\<close> do: the store after \<open>k\<close> calls on the generator at \<open>this\<close>.
\<close>

fun generator_begin_times :: "nat \<Rightarrow> 'a generator_world \<Rightarrow> nat \<Rightarrow> 'a generator_world" where
  "generator_begin_times 0 w this = w"
| "generator_begin_times (Suc k) w this = generator_begin_times k (snd (generator_begin w this)) this"


text \<open>
  The same for an asynchronous generator, \<open>co_await gen.begin()\<close> again and again in
  the coroutine whose frame is at \<open>c\<close>.
\<close>

fun async_generator_begin_times ::
  "nat \<Rightarrow> 'a async_generator_world \<Rightarrow> nat \<Rightarrow> nat \<Rightarrow> 'a async_generator_world" where
  "async_generator_begin_times 0 w c this = w"
| "async_generator_begin_times (Suc k) w c this =
     async_generator_begin_times k (snd (co_await_advance_op w c (async_generator_begin w this))) c this"



text \<open>
  The loop of the test \<open>AdvanceWithBegin\<close>, which calls \<open>begin()\<close> where a loop over
  iterators increments:
  \<open>auto it = gen.begin(); while (it != gen.end()) { out.push_back(*it); it = gen.begin(); }\<close>.
  The test counts the passes in \<open>idx\<close>, which is the length of \<open>out\<close>: every pass
  reads one value and makes one call of \<open>begin()\<close> in the place of \<open>++it\<close>, and the
  loop ends after the call that returns the end iterator.
\<close>

fun advance_with_begin_loop ::
  "nat \<Rightarrow> 'a generator_world \<Rightarrow> nat \<Rightarrow> iterator \<Rightarrow> 'a list \<Rightarrow>
     ('a list outcome \<times> 'a generator_world) option" where
  "advance_with_begin_loop 0 w this it out = None"
| "advance_with_begin_loop (Suc n) w this it out =
     (if generator_iterator_eq w it generator_end then Some (returned out, w)
      else (case generator_iterator_deref w it of
              returned v \<Rightarrow>
                (case generator_begin w this of
                   (returned it', w') \<Rightarrow> advance_with_begin_loop n w' this it' (out @ [v])
                 | (raised e, w') \<Rightarrow> Some (raised e, w')
                 | (r, w') \<Rightarrow> Some (undefined_behaviour, w'))
            | raised e \<Rightarrow> Some (raised e, w)
            | r \<Rightarrow> Some (undefined_behaviour, w)))"

definition advance_with_begin ::
  "nat \<Rightarrow> 'a generator_world \<Rightarrow> nat \<Rightarrow> ('a list outcome \<times> 'a generator_world) option" where
  "advance_with_begin n w this =
     (case generator_begin w this of
        (returned it, w') \<Rightarrow> advance_with_begin_loop n w' this it []
      | (raised e, w') \<Rightarrow> Some (raised e, w')
      | (r, w') \<Rightarrow> Some (undefined_behaviour, w'))"



section \<open>Bodies of the test suite\<close>

definition empty_world :: "('p, 'c) world" where
  "empty_world = \<lparr>frames = Map.empty, objects = (\<lambda>x. None), trace = []\<rparr>"

text \<open>\<open>first_n(n)\<close> yields \<open>0, 1, ..., n - 1\<close>; \<open>value(v)\<close> yields \<open>v\<close>.\<close>

definition first_n :: "nat \<Rightarrow> nat stmt list" where
  "first_n n = map co_yield [0..<n]"

definition value_body :: "'a \<Rightarrow> 'a stmt list" where
  "value_body v = [co_yield v]"



text \<open>What a body yields, in order, and the bodies from which no exception escapes.\<close>

fun yields :: "'a stmt list \<Rightarrow> 'a list" where
  "yields [] = []"
| "yields (co_yield v # ss) = v # yields ss"
| "yields (s # ss) = yields ss"

fun throw_free :: "'a stmt list \<Rightarrow> bool" where
  "throw_free [] = True"
| "throw_free (throw e # ss) = False"
| "throw_free (s # ss) = throw_free ss"

text \<open>
  For an asynchronous body: what it yields, and the bodies in which no exception
  escapes and every awaited operation completes at once.
\<close>

fun async_yields :: "'a async_stmt list \<Rightarrow> 'a list" where
  "async_yields [] = []"
| "async_yields (sync (co_yield v) # ss) = v # async_yields ss"
| "async_yields (s # ss) = async_yields ss"

fun synchronous :: "'a async_stmt list \<Rightarrow> bool" where
  "synchronous [] = True"
| "synchronous (sync (throw e) # ss) = False"
| "synchronous (co_await suspend_always # ss) = False"
| "synchronous (s # ss) = synchronous ss"

text \<open>The side effects of an asynchronous body, in order.\<close>

fun async_effects :: "'a async_stmt list \<Rightarrow> nat list" where
  "async_effects [] = []"
| "async_effects (sync (effect n) # ss) = n # async_effects ss"
| "async_effects (s # ss) = async_effects ss"

section \<open>Stores used as examples\<close>

text \<open>
  The generator of the test \<open>ExceptionAfterYield\<close>, with a side effect before the
  \<open>throw\<close>: after its first value, and after the exception has left the body and has
  been rethrown.
\<close>

definition after_yield_world :: "nat generator_world" where
  "after_yield_world =
     \<lparr>frames = [0 \<mapsto> \<lparr>promise = \<lparr>m_exception = None, m_value = Some 1\<rparr>,
                        body = [effect 7, throw (runtime_error ''Goodbye'')], finished = False\<rparr>],
      objects = (\<lambda>x. None)(0 := Some 0), trace = []\<rparr>"

definition after_throw_world :: "nat generator_world" where
  "after_throw_world =
     \<lparr>frames = [0 \<mapsto> \<lparr>promise = \<lparr>m_exception = None, m_value = Some 1\<rparr>,
                        body = [], finished = True\<rparr>],
      objects = (\<lambda>x. None)(0 := Some 0), trace = [7]\<rparr>"

text \<open>
  The generator of the tests \<open>AdvanceWithBegin\<close> and \<open>AllThingsEnd\<close>,
  \<open>first_n(5)\<close>, as created and after six calls of \<open>begin()\<close>.
\<close>

definition first_5_world :: "nat generator_world" where
  "first_5_world = generator_call empty_world 0 0 (first_n 5)"

definition first_5_exhausted :: "nat generator_world" where
  "first_5_exhausted = generator_begin_times 6 first_5_world 0"

text \<open>The asynchronous generator of the test \<open>AllThingsEnd\<close>, exhausted in the same way.\<close>

definition async_first_5_exhausted :: "nat async_generator_world" where
  "async_first_5_exhausted =
     async_generator_begin_times 6
       (async_generator_call empty_world 0 0 (map (sync \<circ> co_yield) [1, 2, 3, 4, 5])) 9 0"

text \<open>
  The two generators of the test \<open>CompareDifferentIterators\<close>, \<open>value(1)\<close> and
  \<open>value(2)\<close>: both exhausted, and with only the second one exhausted.
\<close>

definition two_values_world :: "nat generator_world" where
  "two_values_world =
     generator_call (generator_call empty_world 0 0 (value_body 1)) 1 1 (value_body 2)"

definition two_exhausted_world :: "nat generator_world" where
  "two_exhausted_world =
     generator_begin_times 2 (generator_begin_times 2 two_values_world 0) 1"

definition second_exhausted_world :: "nat generator_world" where
  "second_exhausted_world =
     generator_begin_times 2 (generator_begin_times 1 two_values_world 0) 1"

text \<open>
  The tasks of the test \<open>MoveAssignOther\<close>, \<open>value("something")\<close> held by the task
  object 0 and \<open>value("unexpected")\<close> held by the task object 1; and the generators of
  the test \<open>MoveAssign\<close>.
\<close>

definition two_tasks_world :: "(string promise_type, string task_body) world" where
  "two_tasks_world =
     task_call promise_T (task_call promise_T empty_world 0 0 ([], co_return ''something''))
       1 1 ([], co_return ''unexpected'')"

definition two_generators_world :: "nat generator_world" where
  "two_generators_world =
     generator_call (generator_call empty_world 0 0 [co_yield 1, co_yield 2, co_yield 3])
       1 1 [co_yield 4, co_yield 5, co_yield 6]"

text \<open>The task of the test \<open>Exception\<close>, whose body throws at once.\<close>

definition thrower_world :: "(promise_base, unit task_body) world" where
  "thrower_world = task_call promise_void empty_world 0 0 ([], task_throw (runtime_error ''error''))"

text \<open>
  The asynchronous generator of the test \<open>ExceptionBeforeYield\<close>, and two tasks that
  return a value of type \<open>nat\<close> and throw instead: one after an awaited operation that
  completes at once, the other after an awaited operation that suspends, a side effect
  and an awaited operation that completes at once.
\<close>

definition async_thrower_world :: "nat async_generator_world" where
  "async_thrower_world =
     async_generator_call empty_world 0 0 [sync (throw (runtime_error ''Goodbye'')), sync (co_yield 1)]"

definition awaiting_thrower_world :: "(nat promise_type, nat task_body) world" where
  "awaiting_thrower_world =
     task_call promise_T empty_world 0 0
       ([task_stmt.task_co_await suspend_never], task_throw (runtime_error ''error''))"

definition suspending_thrower_world :: "(nat promise_type, nat task_body) world" where
  "suspending_thrower_world =
     task_call promise_T empty_world 0 0
       ([task_stmt.task_co_await suspend_always, task_effect 3, task_stmt.task_co_await suspend_never],
        task_throw (runtime_error ''error''))"

text \<open>
  The tasks \<open>value()\<close> and \<open>value<int>(8)\<close> of the test suite, created and neither
  resumed nor awaited.
\<close>

definition void_value_world :: "(promise_base, unit task_body) world" where
  "void_value_world = task_call promise_void empty_world 0 0 ([], co_return ())"

definition nat_value_world :: "(nat promise_type, nat task_body) world" where
  "nat_value_world = task_call promise_T empty_world 0 0 ([], co_return 8)"





section \<open>Running a generator body\<close>

lemma generator_run_yield:
  "generator_run p (map effect ns @ co_yield v # rest) tr =
     (\<lparr>promise = p\<lparr>m_value := Some v\<rparr>, body = rest, finished = False\<rparr>, tr @ ns)"
  by (induction ns arbitrary: tr) (simp_all add: generator_yield_value_def)

lemma generator_run_throw:
  "generator_run p (map effect ns @ throw e # rest) tr =
     (\<lparr>promise = p\<lparr>m_exception := Some e\<rparr>, body = [], finished = True\<rparr>, tr @ ns)"
  by (induction ns arbitrary: tr) (simp_all add: generator_unhandled_exception_def)

lemma generator_run_return:
  "generator_run p (map effect ns) tr =
     (\<lparr>promise = p, body = [], finished = True\<rparr>, tr @ ns)"
  by (induction ns arbitrary: tr) (simp_all add: generator_return_void_def)

lemma is_good_handle_live:
  "frames w a = Some f \<Longrightarrow> \<not> finished f \<Longrightarrow> is_good_handle w (Some a)"
  by (simp add: is_good_handle_def coroutine_done_def)

lemma generator_iterator_inc_not_good:
  "\<not> is_good_handle w (m_coroutine i) \<Longrightarrow>
     generator_iterator_inc w i =
       (raised (bad_result_access ''Incrementing past the end of the generator''), w)"
  by (cases "m_coroutine i") (simp_all add: generator_iterator_inc_def)

lemma generator_iterator_deref_not_good:
  "\<not> is_good_handle w (m_coroutine i) \<Longrightarrow>
     generator_iterator_deref w i = raised (bad_result_access ''Access past the end of the generator'')"
  by (cases "m_coroutine i") (simp_all add: generator_iterator_deref_def)

lemma generator_iterator_inc_yield:
  assumes "m_coroutine i = Some a" "frames w a = Some f" "\<not> finished f"
    "body f = map effect ns @ co_yield v # rest"
  shows "generator_iterator_inc w i =
     (returned i,
      w\<lparr>frames := (frames w)(a \<mapsto> \<lparr>promise = (promise f)\<lparr>m_value := Some v\<rparr>, body = rest, finished = False\<rparr>),
        trace := trace w @ ns\<rparr>)"
  using assms
  by (simp add: generator_iterator_inc_def is_good_handle_def coroutine_done_def
      generator_resume_def generator_run_yield)

lemma generator_iterator_inc_throw:
  assumes "m_coroutine i = Some a" "frames w a = Some f" "\<not> finished f"
    "body f = map effect ns @ throw e # rest"
  shows "generator_iterator_inc w i =
     (raised e,
      w\<lparr>frames := (frames w)(a \<mapsto> \<lparr>promise = (promise f)\<lparr>m_exception := None\<rparr>, body = [], finished = True\<rparr>),
        trace := trace w @ ns\<rparr>)"
  using assms
  by (simp add: generator_iterator_inc_def is_good_handle_def coroutine_done_def
      generator_resume_def generator_run_throw generator_promise_rethrow_def
      generator_rethrow_if_exception_def)

lemma generator_iterator_inc_return:
  assumes "m_coroutine i = Some a" "frames w a = Some f" "\<not> finished f"
    "body f = map effect ns" "m_exception (promise f) = None"
  shows "generator_iterator_inc w i =
     (returned i,
      w\<lparr>frames := (frames w)(a \<mapsto> \<lparr>promise = promise f, body = [], finished = True\<rparr>),
        trace := trace w @ ns\<rparr>)"
  using assms
  by (simp add: generator_iterator_inc_def is_good_handle_def coroutine_done_def
      generator_resume_def generator_run_return generator_promise_rethrow_def
      generator_rethrow_if_exception_def)

lemma generator_begin_not_good:
  "\<not> is_good_handle w (objects w this) \<Longrightarrow>
     generator_begin w this = (returned (iterator (objects w this)), w)"
  by (cases "objects w this") (simp_all add: generator_begin_def generator_advance_def)

lemma generator_begin_yield:
  assumes "objects w this = Some a" "frames w a = Some f" "\<not> finished f"
    "body f = map effect ns @ co_yield v # rest"
  shows "generator_begin w this =
     (returned (iterator (Some a)),
      w\<lparr>frames := (frames w)(a \<mapsto> \<lparr>promise = (promise f)\<lparr>m_value := Some v\<rparr>, body = rest, finished = False\<rparr>),
        trace := trace w @ ns\<rparr>)"
  using assms
  by (simp add: generator_begin_def generator_advance_def is_good_handle_def coroutine_done_def
      generator_resume_def generator_run_yield)

lemma generator_begin_throw:
  assumes "objects w this = Some a" "frames w a = Some f" "\<not> finished f"
    "body f = map effect ns @ throw e # rest"
  shows "generator_begin w this =
     (raised e,
      w\<lparr>frames := (frames w)(a \<mapsto> \<lparr>promise = (promise f)\<lparr>m_exception := None\<rparr>, body = [], finished = True\<rparr>),
        trace := trace w @ ns\<rparr>)"
  using assms
  by (simp add: generator_begin_def generator_advance_def is_good_handle_def coroutine_done_def
      generator_resume_def generator_run_throw generator_promise_rethrow_def
      generator_rethrow_if_exception_def)

lemma generator_begin_return:
  assumes "objects w this = Some a" "frames w a = Some f" "\<not> finished f"
    "body f = map effect ns" "m_exception (promise f) = None"
  shows "generator_begin w this =
     (returned (iterator (Some a)),
      w\<lparr>frames := (frames w)(a \<mapsto> \<lparr>promise = promise f, body = [], finished = True\<rparr>),
        trace := trace w @ ns\<rparr>)"
  using assms
  by (simp add: generator_begin_def generator_advance_def is_good_handle_def coroutine_done_def
      generator_resume_def generator_run_return generator_promise_rethrow_def
      generator_rethrow_if_exception_def)

lemma generator_begin_times_not_good:
  "\<not> is_good_handle w (objects w this) \<Longrightarrow> generator_begin_times k w this = w"
  by (induction k) (simp_all add: generator_begin_not_good)

lemma generator_begin_times_yields:
  assumes "objects w this = Some a"
    "frames w a = Some \<lparr>promise = p, body = map co_yield xs, finished = False\<rparr>"
    "k < length xs"
  shows "\<exists>w'. generator_begin (generator_begin_times k w this) this = (returned (iterator (Some a)), w') \<and>
           generator_iterator_deref w' (iterator (Some a)) = returned (xs ! k) \<and>
           \<not> generator_iterator_eq w' (iterator (Some a)) generator_end"
  using assms
proof (induction k arbitrary: w xs p)
  case 0
  then obtain x xs' where xs: "xs = x # xs'" by (cases xs) auto
  let ?f = "\<lparr>promise = p, body = map co_yield xs, finished = False\<rparr>"
  have "body ?f = map effect [] @ co_yield x # map co_yield xs'" using xs by simp
  from generator_begin_yield[OF "0.prems"(1) "0.prems"(2) _ this]
  show ?case
    by (simp add: xs generator_iterator_deref_def generator_iterator_eq_def generator_end_def
        is_good_handle_def coroutine_done_def generator_value_def)
next
  case (Suc k)
  then obtain x xs' where xs: "xs = x # xs'" by (cases xs) auto
  let ?f = "\<lparr>promise = p, body = map co_yield xs, finished = False\<rparr>"
  let ?w1 = "snd (generator_begin w this)"
  have "body ?f = map effect [] @ co_yield x # map co_yield xs'" using xs by simp
  from generator_begin_yield[OF Suc.prems(1) Suc.prems(2) _ this]
  have w1: "objects ?w1 this = Some a"
    "frames ?w1 a = Some \<lparr>promise = p\<lparr>m_value := Some x\<rparr>, body = map co_yield xs', finished = False\<rparr>"
    using Suc.prems(1) by simp_all
  have "k < length xs'" using Suc.prems(3) xs by simp
  from Suc.IH[OF w1 this] show ?case using xs by simp
qed

lemma generator_begin_times_end:
  assumes "objects w this = Some a"
    "frames w a = Some \<lparr>promise = p, body = map co_yield xs, finished = False\<rparr>"
    "m_exception p = None"
  shows "\<exists>w'. generator_begin (generator_begin_times (length xs) w this) this = (returned (iterator (Some a)), w') \<and>
           generator_iterator_eq w' (iterator (Some a)) generator_end"
  using assms
proof (induction xs arbitrary: w p)
  case Nil
  let ?f = "\<lparr>promise = p, body = map co_yield [], finished = False\<rparr>"
  have "body ?f = map effect []" "m_exception (promise ?f) = None" using Nil.prems(3) by simp_all
  from generator_begin_return[OF Nil.prems(1) Nil.prems(2) _ this]
  show ?case
    by (simp add: generator_iterator_eq_def generator_end_def is_good_handle_def coroutine_done_def)
next
  case (Cons x xs')
  let ?f = "\<lparr>promise = p, body = map co_yield (x # xs'), finished = False\<rparr>"
  let ?w1 = "snd (generator_begin w this)"
  have "body ?f = map effect [] @ co_yield x # map co_yield xs'" by simp
  from generator_begin_yield[OF Cons.prems(1) Cons.prems(2) _ this]
  have w1: "objects ?w1 this = Some a"
    "frames ?w1 a = Some \<lparr>promise = p\<lparr>m_value := Some x\<rparr>, body = map co_yield xs', finished = False\<rparr>"
    using Cons.prems(1) by simp_all
  have "m_exception (p\<lparr>m_value := Some x\<rparr>) = None" using Cons.prems(3) by simp
  from Cons.IH[OF w1 this] show ?case by simp
qed

lemma generator_call_frame:
  "objects (generator_call w this a b) this = Some a \<and>
   frames (generator_call w this a b) a =
     Some \<lparr>promise = \<lparr>m_exception = None, m_value = None\<rparr>, body = b, finished = False\<rparr> \<and>
   trace (generator_call w this a b) = trace w"
  by (simp add: generator_call_def generator_initial_suspend_def)

lemma task_empty_observations:
  assumes "objects w this = None"
  shows "task_is_ready w this"
    and "task_result_value P w this = raised (bad_task ''task is empty or destroyed'')"
    and "task_resume P w this = ((returned False, back_to_resumer), w)"
    and "task_co_await P w c this = (raised (bad_task ''task is empty or destroyed''), w)"
  using assms
  by (simp_all add: task_is_ready_def is_ready_def task_result_value_def check_coroutine_def
      task_resume_def task_co_await_def awaiter_await_ready_def awaiter_await_resume_def)

lemma generator_empty_begin:
  assumes "objects w this = None"
  shows "generator_begin w this = (returned (iterator None), w)"
  using assms by (simp add: generator_begin_def generator_advance_def)

lemma none_eq_end: "generator_iterator_eq w (iterator None) generator_end"
  by (simp add: generator_iterator_eq_def generator_end_def)

lemma co_await_begin_not_good:
  "\<not> is_good_handle w (objects w this) \<Longrightarrow>
     co_await_advance_op w c (async_generator_begin w this) = (returned (iterator None), w)"
  by (simp add: co_await_advance_op_def async_generator_begin_def advance_op_default_def
      advance_op_await_ready_def advance_op_await_resume_def)


lemma async_generator_run_throw:
  "synchronous pre \<Longrightarrow> async_yields pre = [] \<Longrightarrow>
     async_generator_run p (pre @ sync (throw e) # rest) tr =
       ((\<lparr>promise = p\<lparr>m_exception := Some e, m_current_value := None\<rparr>, body = [], finished = True\<rparr>,
         tr @ async_effects pre), transfer (m_consumer p))"
  by (induction pre arbitrary: tr rule: synchronous.induct)
     (simp_all add: async_generator_final_suspend_def async_generator_unhandled_exception_def)



lemma co_await_advance_throw:
  assumes "frames w a = Some f" "\<not> finished f" "body f = pre @ sync (throw e) # rest"
    "synchronous pre" "async_yields pre = []"
  shows "co_await_advance_op w c (advance_op_of (Some a)) =
     (raised e,
      w\<lparr>frames := (frames w)(a \<mapsto>
           \<lparr>promise = (promise f)\<lparr>m_consumer := Some c, m_current_value := None, m_exception := None\<rparr>,
            body = [], finished = True\<rparr>),
        trace := trace w @ async_effects pre\<rparr>)"
  using assms
  by (simp add: co_await_advance_op_def advance_op_of_def advance_op_await_ready_def
      advance_op_await_suspend_def async_generator_set_consumer_def async_generator_resume_def
      async_generator_run_throw advance_op_await_resume_def async_generator_finished_def
      async_generator_rethrow_if_unhandled_exception_def)


lemma async_generator_begin_live:
  "objects w this = Some a \<Longrightarrow> frames w a = Some f \<Longrightarrow> \<not> finished f \<Longrightarrow>
     async_generator_begin w this = advance_op_of (Some a)"
  by (simp add: async_generator_begin_def is_good_handle_def coroutine_done_def)

lemma async_generator_iterator_inc_live:
  "frames w a = Some f \<Longrightarrow> \<not> finished f \<Longrightarrow>
     async_generator_iterator_inc w (iterator (Some a)) = returned (advance_op_of (Some a))"
  by (simp add: async_generator_iterator_inc_def is_good_handle_def coroutine_done_def)

lemma task_run_throw:
  "task_synchronous steps \<Longrightarrow>
     task_run P p steps (task_throw e) tr =
       ((\<lparr>promise = p\<lparr>m_exception := Some e\<rparr>, body = ([], task_throw e), finished = True\<rparr>,
         tr @ task_effects steps),
        promise_base_final_suspend p)"
  by (induction steps arbitrary: tr rule: task_synchronous.induct)
     (simp_all add: promise_base_unhandled_exception_def promise_base_final_suspend_def Let_def)

lemma task_run_return:
  "task_run P p (map task_effect ns) (co_return v) tr =
     ((\<lparr>promise = return_op P p v, body = ([], co_return v), finished = True\<rparr>, tr @ ns),
      promise_base_final_suspend (return_op P p v))"
  by (induction ns arbitrary: tr) (simp_all add: Let_def)

lemma task_run_suspend:
  "task_synchronous pre \<Longrightarrow>
     task_run P p (pre @ task_stmt.task_co_await suspend_always # rest) fin tr =
       ((\<lparr>promise = p, body = (rest, fin), finished = False\<rparr>, tr @ task_effects pre),
        back_to_resumer)"
  by (induction pre arbitrary: tr rule: task_synchronous.induct) simp_all

lemma task_coroutine_resume_throw:
  assumes "frames t a = Some f" "\<not> finished f" "body f = (steps, task_throw e)"
    "task_synchronous steps"
  shows "task_coroutine_resume P t a =
     Some (t\<lparr>frames := (frames t)(a \<mapsto>
             \<lparr>promise = (promise f)\<lparr>m_exception := Some e\<rparr>, body = ([], task_throw e),
              finished = True\<rparr>),
           trace := trace t @ task_effects steps\<rparr>,
           promise_base_final_suspend (promise f))"
  using assms by (simp add: task_coroutine_resume_def task_run_throw)

lemma task_coroutine_resume_suspend:
  assumes "frames t a = Some f" "\<not> finished f"
    "body f = (pre @ task_stmt.task_co_await suspend_always # rest, fin)" "task_synchronous pre"
  shows "task_coroutine_resume P t a =
     Some (t\<lparr>frames := (frames t)(a \<mapsto> \<lparr>promise = promise f, body = (rest, fin), finished = False\<rparr>),
           trace := trace t @ task_effects pre\<rparr>,
           back_to_resumer)"
  using assms by (simp add: task_coroutine_resume_def task_run_suspend)

lemma task_co_await_throw:
  assumes "objects t this = Some a" "frames t a = Some f" "\<not> finished f"
    "body f = (steps, task_throw e)" "task_synchronous steps"
  shows "task_co_await P t c this =
     (result_value_op P ((promise f)\<lparr>m_next := Some c, m_exception := Some e\<rparr>),
      t\<lparr>frames := (frames t)(a \<mapsto>
           \<lparr>promise = (promise f)\<lparr>m_next := Some c, m_exception := Some e\<rparr>,
            body = ([], task_throw e), finished = True\<rparr>),
        trace := trace t @ task_effects steps\<rparr>)"
  using assms
  by (simp add: task_co_await_def awaiter_await_ready_def is_ready_def coroutine_done_def
      awaiter_await_suspend_def promise_base_set_next_def task_coroutine_resume_def
      task_run_throw promise_base_final_suspend_def awaiter_await_resume_def
      check_coroutine_def Let_def)

lemma task_suspensions_split:
  "task_suspensions steps = Suc k \<Longrightarrow>
     \<exists>pre rest. steps = pre @ task_stmt.task_co_await suspend_always # rest \<and> task_synchronous pre \<and>
        task_suspensions rest = k \<and> task_effects steps = task_effects pre @ task_effects rest"
proof (induction steps)
  case Nil
  then show ?case by simp
next
  case (Cons s ss)
  have step: "task_suspensions ss = Suc k \<Longrightarrow> task_synchronous [s] \<Longrightarrow> ?case"
  proof -
    assume a: "task_suspensions ss = Suc k" and s: "task_synchronous [s]"
    from Cons.IH[OF a] obtain pre rest where
      p: "ss = pre @ task_stmt.task_co_await suspend_always # rest" "task_synchronous pre"
        "task_suspensions rest = k" "task_effects ss = task_effects pre @ task_effects rest"
      by auto
    have "task_synchronous (s # pre)"
      using s p(2) by (cases "[s]" rule: task_synchronous.cases) auto
    moreover have "task_effects (s # ss) = task_effects (s # pre) @ task_effects rest"
      using p(4) by (cases "[s]" rule: task_effects.cases) auto
    ultimately have "s # ss = (s # pre) @ task_stmt.task_co_await suspend_always # rest \<and>
        task_synchronous (s # pre) \<and> task_suspensions rest = k \<and>
        task_effects (s # ss) = task_effects (s # pre) @ task_effects rest"
      using p by simp
    then show ?case by (intro exI)
  qed
  show ?case
  proof (cases s)
    case (task_effect n)
    with Cons.prems show ?thesis by (intro step) simp_all
  next
    case (task_co_await aw)
    show ?thesis
    proof (cases aw)
      case suspend_always
      with task_co_await Cons.prems
      have "s # ss = [] @ task_stmt.task_co_await suspend_always # ss \<and> task_synchronous [] \<and>
          task_suspensions ss = k \<and> task_effects (s # ss) = task_effects [] @ task_effects ss"
        by simp
      then show ?thesis by (intro exI)
    next
      case suspend_never
      with task_co_await Cons.prems show ?thesis by (intro step) simp_all
    qed
  qed
qed

lemma task_suspensions_none:
  "task_suspensions steps = 0 \<Longrightarrow> task_synchronous steps"
  by (induction steps rule: task_synchronous.induct) simp_all

lemma task_coroutine_resume_times_throw:
  assumes "frames t a = Some f" "\<not> finished f" "body f = (steps, task_throw e)"
  shows "task_coroutine_resume_times (task_suspensions steps) P t a =
     Some (t\<lparr>frames := (frames t)(a \<mapsto>
             \<lparr>promise = (promise f)\<lparr>m_exception := Some e\<rparr>, body = ([], task_throw e),
              finished = True\<rparr>),
           trace := trace t @ task_effects steps\<rparr>,
           promise_base_final_suspend (promise f))"
  using assms
proof (induction "task_suspensions steps" arbitrary: t f steps)
  case 0
  then have z: "task_suspensions steps = 0" and s: "task_synchronous steps"
    by (simp_all add: task_suspensions_none)
  show ?case
    unfolding z task_coroutine_resume_times.simps
    using "0.prems"(1-3) s by (rule task_coroutine_resume_throw)
next
  case (Suc k)
  from task_suspensions_split[OF Suc.hyps(2)[symmetric]] obtain pre rest where
    p: "steps = pre @ task_stmt.task_co_await suspend_always # rest" "task_synchronous pre"
      "task_suspensions rest = k" "task_effects steps = task_effects pre @ task_effects rest"
    by auto
  let ?f1 = "\<lparr>promise = promise f, body = (rest, task_throw e), finished = False\<rparr>"
  let ?t1 = "t\<lparr>frames := (frames t)(a \<mapsto> ?f1), trace := trace t @ task_effects pre\<rparr>"
  have b: "body f = (pre @ task_stmt.task_co_await suspend_always # rest, task_throw e)"
    using Suc.prems(3) p(1) by simp
  have r: "task_coroutine_resume P t a = Some (?t1, back_to_resumer)"
    using Suc.prems(1,2) b p(2) by (rule task_coroutine_resume_suspend)
  have f1: "frames ?t1 a = Some ?f1" "\<not> finished ?f1" "body ?f1 = (rest, task_throw e)"
    by simp_all
  from Suc.hyps(1)[OF p(3)[symmetric] f1]
  have "task_coroutine_resume_times k P ?t1 a =
     Some (t\<lparr>frames := (frames t)(a \<mapsto>
             \<lparr>promise = (promise f)\<lparr>m_exception := Some e\<rparr>, body = ([], task_throw e),
              finished = True\<rparr>),
           trace := trace t @ task_effects steps\<rparr>,
           promise_base_final_suspend (promise f))"
    using p(3,4) by simp
  then show ?case
    unfolding Suc.hyps(2)[symmetric] task_coroutine_resume_times.simps r by simp
qed

lemma task_finished_observations:
  assumes "objects t this = Some a" "frames t a = Some f" "finished f"
  shows "task_result_value P t this = result_value_op P (promise f)"
    and "task_co_await P t c this = (result_value_op P (promise f), t)"
    and "task_is_ready t this"
  using assms
  by (simp_all add: task_result_value_def check_coroutine_def task_co_await_def
      awaiter_await_ready_def is_ready_def coroutine_done_def awaiter_await_resume_def
      task_is_ready_def)

lemma result_value_stored_exception:
  "m_exception p = Some e \<Longrightarrow> promise_type_result_value p = raised e"
  "m_exception q = Some e \<Longrightarrow> promise_void_result_value q = raised e"
  by (simp_all add: promise_type_result_value_def promise_void_result_value_def
      promise_base_rethrow_if_exception_def)


lemma yields_map_co_yield: "yields (map co_yield xs) = xs \<and> throw_free (map co_yield xs)"
  by (induction xs) simp_all


section \<open>The range-based for loop over a generator\<close>

lemma throw_free_split:
  "throw_free b \<Longrightarrow> yields b = y # ys \<Longrightarrow>
     \<exists>ns rest. b = map effect ns @ co_yield y # rest \<and> throw_free rest \<and> yields rest = ys"
proof (induction b)
  case Nil
  then show ?case by simp
next
  case (Cons s ss)
  show ?case
  proof (cases s)
    case (effect n)
    with Cons.prems have "throw_free ss" "yields ss = y # ys" by simp_all
    from Cons.IH[OF this] obtain ns rest where
      "ss = map effect ns @ co_yield y # rest" "throw_free rest" "yields rest = ys"
      by auto
    then have "s # ss = map effect (n # ns) @ co_yield y # rest \<and> throw_free rest \<and> yields rest = ys"
      using effect by simp
    then show ?thesis by (intro exI)
  next
    case (co_yield v)
    with Cons.prems
    have "s # ss = map effect [] @ co_yield y # ss \<and> throw_free ss \<and> yields ss = ys"
      by simp
    then show ?thesis by (intro exI)
  next
    case (throw e)
    with Cons.prems show ?thesis by simp
  qed
qed

lemma throw_free_no_yield:
  "throw_free b \<Longrightarrow> yields b = [] \<Longrightarrow> \<exists>ns. b = map effect ns"
proof (induction b)
  case Nil
  then show ?case by simp
next
  case (Cons s ss)
  show ?case
  proof (cases s)
    case (effect n)
    with Cons.prems have "throw_free ss" "yields ss = []" by simp_all
    from Cons.IH[OF this] obtain ns where "ss = map effect ns" by auto
    then have "s # ss = map effect (n # ns)" using effect by simp
    then show ?thesis by (rule exI)
  next
    case (co_yield v)
    with Cons.prems show ?thesis by simp
  next
    case (throw e)
    with Cons.prems show ?thesis by simp
  qed
qed



section \<open>Advancing the adapter, and the range-based for loop over it\<close>










section \<open>The loop that advances with begin()\<close>

lemma advance_with_begin_loop_yields:
  assumes "objects w this = Some a"
    "frames w a = Some \<lparr>promise = p, body = b, finished = False\<rparr>"
    "m_value p = Some v" "m_exception p = None" "throw_free b" "Suc (length (yields b)) < n"
  shows "\<exists>w'. advance_with_begin_loop n w this (iterator (Some a)) out = Some (returned (out @ v # yields b), w')"
  using assms
proof (induction n arbitrary: w p b v out)
  case 0
  then show ?case by simp
next
  case (Suc n)
  let ?f = "\<lparr>promise = p, body = b, finished = False\<rparr>"
  let ?i = "iterator (Some a)"
  have live: "objects w this = Some a" "frames w a = Some ?f" "\<not> finished ?f"
    using Suc.prems(1,2) by simp_all
  have ne: "\<not> generator_iterator_eq w ?i generator_end"
    using Suc.prems(2)
    by (simp add: generator_iterator_eq_def generator_end_def is_good_handle_def coroutine_done_def)
  have de: "generator_iterator_deref w ?i = returned v"
    using Suc.prems(2,3)
    by (simp add: generator_iterator_deref_def is_good_handle_def coroutine_done_def generator_value_def)
  show ?case
  proof (cases "yields b")
    case Nil
    from throw_free_no_yield[OF Suc.prems(5) Nil] obtain ns where b: "b = map effect ns" by auto
    then have "body ?f = map effect ns" "m_exception (promise ?f) = None" using Suc.prems(4) by simp_all
    from generator_begin_return[OF live this]
    have inc: "generator_begin w this =
       (returned ?i, w\<lparr>frames := (frames w)(a \<mapsto> \<lparr>promise = p, body = [], finished = True\<rparr>),
          trace := trace w @ ns\<rparr>)" by simp
    let ?w1 = "w\<lparr>frames := (frames w)(a \<mapsto> \<lparr>promise = p, body = [], finished = True\<rparr>),
          trace := trace w @ ns\<rparr>"
    have e1: "generator_iterator_eq ?w1 ?i generator_end"
      by (simp add: generator_iterator_eq_def generator_end_def is_good_handle_def coroutine_done_def)
    from Suc.prems(6) Nil obtain m where n: "n = Suc m" by (cases n) auto
    have "advance_with_begin_loop (Suc m) ?w1 this ?i (out @ [v]) = Some (returned (out @ [v]), ?w1)"
      using e1 by (simp only: advance_with_begin_loop.simps if_True)
    then have l2: "advance_with_begin_loop n ?w1 this ?i (out @ [v]) = Some (returned (out @ [v]), ?w1)"
      using n by simp
    have "advance_with_begin_loop (Suc n) w this ?i out = advance_with_begin_loop n ?w1 this ?i (out @ [v])"
      using ne de inc by simp
    with l2 Nil show ?thesis by simp
  next
    case (Cons y ys)
    from throw_free_split[OF Suc.prems(5) Cons] obtain ns rest where
      b: "b = map effect ns @ co_yield y # rest" "throw_free rest" "yields rest = ys"
      by auto
    then have "body ?f = map effect ns @ co_yield y # rest" by simp
    from generator_begin_yield[OF live this]
    have inc: "generator_begin w this =
       (returned ?i, w\<lparr>frames := (frames w)(a \<mapsto>
            \<lparr>promise = p\<lparr>m_value := Some y\<rparr>, body = rest, finished = False\<rparr>),
          trace := trace w @ ns\<rparr>)" by simp
    let ?w1 = "w\<lparr>frames := (frames w)(a \<mapsto>
            \<lparr>promise = p\<lparr>m_value := Some y\<rparr>, body = rest, finished = False\<rparr>),
          trace := trace w @ ns\<rparr>"
    have f1: "frames ?w1 a = Some \<lparr>promise = p\<lparr>m_value := Some y\<rparr>, body = rest, finished = False\<rparr>"
      by simp
    have o1: "objects ?w1 this = Some a" using Suc.prems(1) by simp
    have "Suc (length (yields rest)) < n" using Suc.prems(6) Cons b(3) by simp
    from Suc.IH[OF o1 f1 _ _ b(2) this, of y "out @ [v]"] Suc.prems(4)
    obtain w' where "advance_with_begin_loop n ?w1 this ?i (out @ [v]) = Some (returned ((out @ [v]) @ y # yields rest), w')"
      by auto
    then show ?thesis using ne de inc Cons b(3) by simp
  qed
qed

lemma advance_with_begin_yields:
  assumes "objects w this = Some a" "frames w a = Some f" "\<not> finished f"
    "throw_free (body f)" "m_exception (promise f) = None" "length (yields (body f)) < n"
  shows "\<exists>w'. advance_with_begin n w this = Some (returned (yields (body f)), w')"
proof (cases "yields (body f)")
  case Nil
  from throw_free_no_yield[OF assms(4) Nil] obtain ns where b: "body f = map effect ns" by auto
  from generator_begin_return[OF assms(1-3) b assms(5)]
  have bg: "generator_begin w this =
     (returned (iterator (Some a)),
      w\<lparr>frames := (frames w)(a \<mapsto> \<lparr>promise = promise f, body = [], finished = True\<rparr>),
        trace := trace w @ ns\<rparr>)" .
  let ?w1 = "w\<lparr>frames := (frames w)(a \<mapsto> \<lparr>promise = promise f, body = [], finished = True\<rparr>),
        trace := trace w @ ns\<rparr>"
  have e1: "generator_iterator_eq ?w1 (iterator (Some a)) generator_end"
    by (simp add: generator_iterator_eq_def generator_end_def is_good_handle_def coroutine_done_def)
  from assms(6) obtain m where n: "n = Suc m" by (cases n) auto
  have "advance_with_begin_loop (Suc m) ?w1 this (iterator (Some a)) [] = Some (returned [], ?w1)"
    using e1 by (simp only: advance_with_begin_loop.simps if_True)
  then have "advance_with_begin_loop n ?w1 this (iterator (Some a)) [] = Some (returned [], ?w1)"
    using n by simp
  then show ?thesis using bg Nil by (simp add: advance_with_begin_def)
next
  case (Cons y ys)
  from throw_free_split[OF assms(4) Cons] obtain ns rest where
    b: "body f = map effect ns @ co_yield y # rest" "throw_free rest" "yields rest = ys"
    by auto
  from generator_begin_yield[OF assms(1-3) b(1)]
  have bg: "generator_begin w this =
     (returned (iterator (Some a)),
      w\<lparr>frames := (frames w)(a \<mapsto>
           \<lparr>promise = (promise f)\<lparr>m_value := Some y\<rparr>, body = rest, finished = False\<rparr>),
        trace := trace w @ ns\<rparr>)" .
  let ?w1 = "w\<lparr>frames := (frames w)(a \<mapsto>
           \<lparr>promise = (promise f)\<lparr>m_value := Some y\<rparr>, body = rest, finished = False\<rparr>),
        trace := trace w @ ns\<rparr>"
  have f1: "frames ?w1 a = Some \<lparr>promise = (promise f)\<lparr>m_value := Some y\<rparr>, body = rest, finished = False\<rparr>"
    by simp
  have o1: "objects ?w1 this = Some a" using assms(1) by simp
  have "Suc (length (yields rest)) < n" using assms(6) Cons b(3) by simp
  from advance_with_begin_loop_yields[OF o1 f1 _ _ b(2) this, of y "[]"] assms(5)
  obtain w' where "advance_with_begin_loop n ?w1 this (iterator (Some a)) [] = Some (returned ([] @ y # yields rest), w')"
    by auto
  then show ?thesis using bg Cons b(3) by (simp add: advance_with_begin_def)
qed

section \<open>Stored failures\<close>

lemma generator_failure_once:
  assumes "objects w this = Some a" "frames w a = Some f" "\<not> finished f"
    "body f = map effect ns @ throw e # rest"
  shows "(\<exists>ws fs. generator_resume w a = Some ws \<and> frames ws a = Some fs \<and> finished fs \<and>
            m_exception (promise fs) = Some e) \<and>
         (\<exists>w1 f1. generator_begin w this = (raised e, w1) \<and>
            generator_iterator_inc w (iterator (Some a)) = (raised e, w1) \<and>
            frames w1 a = Some f1 \<and> finished f1 \<and> m_exception (promise f1) = None \<and>
            generator_begin w1 this = (returned (iterator (Some a)), w1) \<and>
            generator_iterator_eq w1 (iterator (Some a)) generator_end \<and>
            generator_iterator_inc w1 (iterator (Some a)) =
              (raised (bad_result_access ''Incrementing past the end of the generator''), w1))"
proof
  show "\<exists>ws fs. generator_resume w a = Some ws \<and> frames ws a = Some fs \<and> finished fs \<and>
            m_exception (promise fs) = Some e"
    using assms by (simp add: generator_resume_def generator_run_throw)
next
  let ?w1 = "w\<lparr>frames := (frames w)(a \<mapsto>
       \<lparr>promise = (promise f)\<lparr>m_exception := None\<rparr>, body = [], finished = True\<rparr>),
     trace := trace w @ ns\<rparr>"
  let ?f1 = "\<lparr>promise = (promise f)\<lparr>m_exception := None\<rparr>, body = [], finished = True\<rparr>"
  have b: "generator_begin w this = (raised e, ?w1)"
    using assms by (rule generator_begin_throw)
  have i: "generator_iterator_inc w (iterator (Some a)) = (raised e, ?w1)"
    using assms(2-4) by (simp add: generator_iterator_inc_throw)
  have o: "objects ?w1 this = Some a" using assms(1) by simp
  have ng: "\<not> is_good_handle ?w1 (Some a)"
    by (simp add: is_good_handle_def coroutine_done_def)
  have b1: "generator_begin ?w1 this = (returned (iterator (Some a)), ?w1)"
    using generator_begin_not_good[of ?w1 this] o ng by simp
  have e1: "generator_iterator_eq ?w1 (iterator (Some a)) generator_end"
    using ng by (simp add: generator_iterator_eq_def generator_end_def is_good_handle_def)
  have i1: "generator_iterator_inc ?w1 (iterator (Some a)) =
              (raised (bad_result_access ''Incrementing past the end of the generator''), ?w1)"
    using generator_iterator_inc_not_good[of ?w1 "iterator (Some a)"] ng by simp
  have fr: "frames ?w1 a = Some ?f1 \<and> finished ?f1 \<and> m_exception (promise ?f1) = None"
    by simp
  from b i fr b1 e1 i1
  show "\<exists>w1 f1. generator_begin w this = (raised e, w1) \<and>
            generator_iterator_inc w (iterator (Some a)) = (raised e, w1) \<and>
            frames w1 a = Some f1 \<and> finished f1 \<and> m_exception (promise f1) = None \<and>
            generator_begin w1 this = (returned (iterator (Some a)), w1) \<and>
            generator_iterator_eq w1 (iterator (Some a)) generator_end \<and>
            generator_iterator_inc w1 (iterator (Some a)) =
              (raised (bad_result_access ''Incrementing past the end of the generator''), w1)"
    by (intro exI[of _ ?w1] exI[of _ ?f1] conjI) simp_all
qed

lemma async_generator_failure_once:
  assumes "objects u that = Some b" "frames u b = Some g" "\<not> finished g"
    "body g = pre @ sync (throw e) # rest" "synchronous pre" "async_yields pre = []"
  shows "(\<exists>us gs ctl. async_generator_resume u b = Some (us, ctl) \<and> frames us b = Some gs \<and>
            finished gs \<and> m_exception (promise gs) = Some e) \<and>
         (\<exists>u1 g1. co_await_advance_op u c (async_generator_begin u that) = (raised e, u1) \<and>
            async_generator_iterator_inc u (iterator (Some b)) = returned (advance_op_of (Some b)) \<and>
            co_await_advance_op u c (advance_op_of (Some b)) = (raised e, u1) \<and>
            frames u1 b = Some g1 \<and> finished g1 \<and> m_exception (promise g1) = None \<and>
            co_await_advance_op u1 c (async_generator_begin u1 that) = (returned (iterator None), u1) \<and>
            async_generator_iterator_eq_sentinel u1 (iterator (Some b)) \<and>
            async_generator_iterator_inc u1 (iterator (Some b)) =
              raised (bad_result_access ''Incrementing past the end of the generator''))"
proof
  show "\<exists>us gs ctl. async_generator_resume u b = Some (us, ctl) \<and> frames us b = Some gs \<and>
            finished gs \<and> m_exception (promise gs) = Some e"
    using assms by (simp add: async_generator_resume_def async_generator_run_throw)
next
  let ?g1 = "\<lparr>promise = (promise g)\<lparr>m_consumer := Some c, m_current_value := None, m_exception := None\<rparr>,
            body = [], finished = True\<rparr>"
  let ?u1 = "u\<lparr>frames := (frames u)(b \<mapsto> ?g1), trace := trace u @ async_effects pre\<rparr>"
  have a: "co_await_advance_op u c (advance_op_of (Some b)) = (raised e, ?u1)"
    using assms(2-6) by (rule co_await_advance_throw)
  have bg: "async_generator_begin u that = advance_op_of (Some b)"
    using assms(1-3) by (rule async_generator_begin_live)
  have inc: "async_generator_iterator_inc u (iterator (Some b)) = returned (advance_op_of (Some b))"
    using assms(2,3) by (rule async_generator_iterator_inc_live)
  have o: "objects ?u1 that = Some b" using assms(1) by simp
  have ng: "\<not> is_good_handle ?u1 (Some b)"
    by (simp add: is_good_handle_def coroutine_done_def)
  have b1: "co_await_advance_op ?u1 c (async_generator_begin ?u1 that) = (returned (iterator None), ?u1)"
    using co_await_begin_not_good[of ?u1 that c] o ng by simp
  have s1: "async_generator_iterator_eq_sentinel ?u1 (iterator (Some b))"
    using ng by (simp add: async_generator_iterator_eq_sentinel_def)
  have i1: "async_generator_iterator_inc ?u1 (iterator (Some b)) =
              raised (bad_result_access ''Incrementing past the end of the generator'')"
    using ng by (simp add: async_generator_iterator_inc_def)
  have fr: "frames ?u1 b = Some ?g1 \<and> finished ?g1 \<and> m_exception (promise ?g1) = None"
    by simp
  from a bg inc fr b1 s1 i1
  show "\<exists>u1 g1. co_await_advance_op u c (async_generator_begin u that) = (raised e, u1) \<and>
            async_generator_iterator_inc u (iterator (Some b)) = returned (advance_op_of (Some b)) \<and>
            co_await_advance_op u c (advance_op_of (Some b)) = (raised e, u1) \<and>
            frames u1 b = Some g1 \<and> finished g1 \<and> m_exception (promise g1) = None \<and>
            co_await_advance_op u1 c (async_generator_begin u1 that) = (returned (iterator None), u1) \<and>
            async_generator_iterator_eq_sentinel u1 (iterator (Some b)) \<and>
            async_generator_iterator_inc u1 (iterator (Some b)) =
              raised (bad_result_access ''Incrementing past the end of the generator'')"
    by (intro exI[of _ ?u1] exI[of _ ?g1] conjI) simp_all
qed

lemma task_failure_every_time:
  assumes "objects t tk = Some d" "frames t d = Some h" "\<not> finished h"
    "body h = (steps, task_throw e)"
    and rv: "\<And>p. m_exception p = Some e \<Longrightarrow> result_value_op P p = raised e"
  shows "\<exists>t1 h1. task_coroutine_resume_times (task_suspensions steps) P t d =
            Some (t1, promise_base_final_suspend (promise h)) \<and>
          frames t1 d = Some h1 \<and> finished h1 \<and> m_exception (promise h1) = Some e \<and>
          trace t1 = trace t @ task_effects steps \<and>
          task_result_value P t1 tk = raised e \<and>
          task_co_await P t1 c tk = (raised e, t1)"
proof -
  let ?h1 = "\<lparr>promise = (promise h)\<lparr>m_exception := Some e\<rparr>, body = ([], task_throw e), finished = True\<rparr>"
  let ?t1 = "t\<lparr>frames := (frames t)(d \<mapsto> ?h1), trace := trace t @ task_effects steps\<rparr>"
  have r: "task_coroutine_resume_times (task_suspensions steps) P t d =
      Some (?t1, promise_base_final_suspend (promise h))"
    using assms(2-4) by (rule task_coroutine_resume_times_throw)
  have o: "objects ?t1 tk = Some d" "frames ?t1 d = Some ?h1" "finished ?h1"
    using assms(1) by simp_all
  have v: "result_value_op P (promise ?h1) = raised e" by (rule rv) simp
  from task_finished_observations[OF o] v r o
  show ?thesis
    by (intro exI[of _ ?t1] exI[of _ ?h1] conjI) simp_all
qed

lemma task_await_failure_every_time:
  assumes "objects t tk = Some d" "frames t d = Some h" "\<not> finished h"
    "body h = (steps, task_throw e)" "task_synchronous steps"
    and rv: "\<And>p. m_exception p = Some e \<Longrightarrow> result_value_op P p = raised e"
  shows "\<exists>t2. task_co_await P t c tk = (raised e, t2) \<and>
          task_co_await P t2 c tk = (raised e, t2) \<and>
          task_result_value P t2 tk = raised e"
proof -
  let ?h2 = "\<lparr>promise = (promise h)\<lparr>m_next := Some c, m_exception := Some e\<rparr>,
            body = ([], task_throw e), finished = True\<rparr>"
  let ?t2 = "t\<lparr>frames := (frames t)(d \<mapsto> ?h2), trace := trace t @ task_effects steps\<rparr>"
  have v: "result_value_op P (promise ?h2) = raised e" by (rule rv) simp
  have a: "task_co_await P t c tk = (raised e, ?t2)"
    using task_co_await_throw[OF assms(1-5), of P c] v by simp
  have o: "objects ?t2 tk = Some d" "frames ?t2 d = Some ?h2" "finished ?h2"
    using assms(1) by simp_all
  from task_finished_observations[OF o] v a
  show ?thesis
    by (intro exI[of _ ?t2] conjI) simp_all
qed

text \<open>
  Claim C1, as amended. When an exception leaves the body of a generator or of an
  asynchronous generator, the resumption that runs into it stores the exception in the
  promise and finishes the coroutine; the advance that made the resumption (\<open>begin()\<close>,
  prefix increment, or the awaited advance operation) rethrows it and empties the slot.
  Afterwards the exception is not rethrown again: \<open>begin()\<close> returns the end iterator and
  leaves the store unchanged, and an increment raises \<open>bad_result_access\<close>. When an
  exception leaves the body of a task, of a value type or of \<open>void\<close>, it is stored in
  the promise and stays there. This holds for every body that ends in the exception,
  whatever side effects and awaited operations come before it: once the coroutine has
  been resumed past the operations that suspend, the exception is stored, the coroutine
  is finished and \<open>final_suspend\<close> names the continuation (if any) that goes on; from
  then on reading the result and awaiting the task rethrow the exception and leave the
  store unchanged. A task whose remaining awaited operations complete at once rethrows
  at the first \<open>co_await\<close>, at the second, and when its result is read after that.
\<close>

theorem stored_failure_rethrown:
  "(objects w this = Some a \<and> frames w a = Some f \<and> \<not> finished f \<and>
    body f = map effect ns @ throw e # rest \<longrightarrow>
      (\<exists>ws fs. generator_resume w a = Some ws \<and> frames ws a = Some fs \<and> finished fs \<and>
          m_exception (promise fs) = Some e) \<and>
      (\<exists>w1 f1. generator_begin w this = (raised e, w1) \<and>
          generator_iterator_inc w (iterator (Some a)) = (raised e, w1) \<and>
          frames w1 a = Some f1 \<and> finished f1 \<and> m_exception (promise f1) = None \<and>
          generator_begin w1 this = (returned (iterator (Some a)), w1) \<and>
          generator_iterator_eq w1 (iterator (Some a)) generator_end \<and>
          generator_iterator_inc w1 (iterator (Some a)) =
            (raised (bad_result_access ''Incrementing past the end of the generator''), w1))) \<and>
   (objects u that = Some b \<and> frames u b = Some g \<and> \<not> finished g \<and>
    body g = pre @ sync (throw e) # rest' \<and> synchronous pre \<and> async_yields pre = [] \<longrightarrow>
      (\<exists>us gs ctl. async_generator_resume u b = Some (us, ctl) \<and> frames us b = Some gs \<and>
          finished gs \<and> m_exception (promise gs) = Some e) \<and>
      (\<exists>u1 g1. co_await_advance_op u c (async_generator_begin u that) = (raised e, u1) \<and>
          async_generator_iterator_inc u (iterator (Some b)) = returned (advance_op_of (Some b)) \<and>
          co_await_advance_op u c (advance_op_of (Some b)) = (raised e, u1) \<and>
          frames u1 b = Some g1 \<and> finished g1 \<and> m_exception (promise g1) = None \<and>
          co_await_advance_op u1 c (async_generator_begin u1 that) = (returned (iterator None), u1) \<and>
          async_generator_iterator_eq_sentinel u1 (iterator (Some b)) \<and>
          async_generator_iterator_inc u1 (iterator (Some b)) =
            raised (bad_result_access ''Incrementing past the end of the generator''))) \<and>
   (objects t tk = Some d \<and> frames t d = Some h \<and> \<not> finished h \<and>
    body h = (steps, task_throw e) \<longrightarrow>
      (\<exists>t1 h1. task_coroutine_resume_times (task_suspensions steps) promise_T t d =
            Some (t1, promise_base_final_suspend (promise h)) \<and>
          frames t1 d = Some h1 \<and> finished h1 \<and> m_exception (promise h1) = Some e \<and>
          trace t1 = trace t @ task_effects steps \<and>
          task_result_value promise_T t1 tk = raised e \<and>
          task_co_await promise_T t1 c tk = (raised e, t1))) \<and>
   (objects t tk = Some d \<and> frames t d = Some h \<and> \<not> finished h \<and>
    body h = (steps, task_throw e) \<and> task_synchronous steps \<longrightarrow>
      (\<exists>t2. task_co_await promise_T t c tk = (raised e, t2) \<and>
          task_co_await promise_T t2 c tk = (raised e, t2) \<and>
          task_result_value promise_T t2 tk = raised e)) \<and>
   (objects v tk = Some d \<and> frames v d = Some k \<and> \<not> finished k \<and>
    body k = (steps', task_throw e) \<longrightarrow>
      (\<exists>t1 h1. task_coroutine_resume_times (task_suspensions steps') promise_void v d =
            Some (t1, promise_base_final_suspend (promise k)) \<and>
          frames t1 d = Some h1 \<and> finished h1 \<and> m_exception (promise h1) = Some e \<and>
          trace t1 = trace v @ task_effects steps' \<and>
          task_result_value promise_void t1 tk = raised e \<and>
          task_co_await promise_void t1 c tk = (raised e, t1))) \<and>
   (objects v tk = Some d \<and> frames v d = Some k \<and> \<not> finished k \<and>
    body k = (steps', task_throw e) \<and> task_synchronous steps' \<longrightarrow>
      (\<exists>t2. task_co_await promise_void v c tk = (raised e, t2) \<and>
          task_co_await promise_void t2 c tk = (raised e, t2) \<and>
          task_result_value promise_void t2 tk = raised e))"
proof (intro conjI)
  show "objects w this = Some a \<and> frames w a = Some f \<and> \<not> finished f \<and>
    body f = map effect ns @ throw e # rest \<longrightarrow>
      (\<exists>ws fs. generator_resume w a = Some ws \<and> frames ws a = Some fs \<and> finished fs \<and>
          m_exception (promise fs) = Some e) \<and>
      (\<exists>w1 f1. generator_begin w this = (raised e, w1) \<and>
          generator_iterator_inc w (iterator (Some a)) = (raised e, w1) \<and>
          frames w1 a = Some f1 \<and> finished f1 \<and> m_exception (promise f1) = None \<and>
          generator_begin w1 this = (returned (iterator (Some a)), w1) \<and>
          generator_iterator_eq w1 (iterator (Some a)) generator_end \<and>
          generator_iterator_inc w1 (iterator (Some a)) =
            (raised (bad_result_access ''Incrementing past the end of the generator''), w1))"
    using generator_failure_once[of w this a f ns e rest] by (intro impI) (elim conjE, simp)
  show "objects u that = Some b \<and> frames u b = Some g \<and> \<not> finished g \<and>
    body g = pre @ sync (throw e) # rest' \<and> synchronous pre \<and> async_yields pre = [] \<longrightarrow>
      (\<exists>us gs ctl. async_generator_resume u b = Some (us, ctl) \<and> frames us b = Some gs \<and>
          finished gs \<and> m_exception (promise gs) = Some e) \<and>
      (\<exists>u1 g1. co_await_advance_op u c (async_generator_begin u that) = (raised e, u1) \<and>
          async_generator_iterator_inc u (iterator (Some b)) = returned (advance_op_of (Some b)) \<and>
          co_await_advance_op u c (advance_op_of (Some b)) = (raised e, u1) \<and>
          frames u1 b = Some g1 \<and> finished g1 \<and> m_exception (promise g1) = None \<and>
          co_await_advance_op u1 c (async_generator_begin u1 that) = (returned (iterator None), u1) \<and>
          async_generator_iterator_eq_sentinel u1 (iterator (Some b)) \<and>
          async_generator_iterator_inc u1 (iterator (Some b)) =
            raised (bad_result_access ''Incrementing past the end of the generator''))"
    using async_generator_failure_once[of u that b g pre e rest' c]
    by (intro impI) (elim conjE, simp)
  show "objects t tk = Some d \<and> frames t d = Some h \<and> \<not> finished h \<and>
    body h = (steps, task_throw e) \<longrightarrow>
      (\<exists>t1 h1. task_coroutine_resume_times (task_suspensions steps) promise_T t d =
            Some (t1, promise_base_final_suspend (promise h)) \<and>
          frames t1 d = Some h1 \<and> finished h1 \<and> m_exception (promise h1) = Some e \<and>
          trace t1 = trace t @ task_effects steps \<and>
          task_result_value promise_T t1 tk = raised e \<and>
          task_co_await promise_T t1 c tk = (raised e, t1))"
    using task_failure_every_time[of t tk d h steps e promise_T c]
    by (intro impI) (elim conjE, simp add: promise_T_def result_value_stored_exception)
  show "objects t tk = Some d \<and> frames t d = Some h \<and> \<not> finished h \<and>
    body h = (steps, task_throw e) \<and> task_synchronous steps \<longrightarrow>
      (\<exists>t2. task_co_await promise_T t c tk = (raised e, t2) \<and>
          task_co_await promise_T t2 c tk = (raised e, t2) \<and>
          task_result_value promise_T t2 tk = raised e)"
    using task_await_failure_every_time[of t tk d h steps e promise_T c]
    by (intro impI) (elim conjE, simp add: promise_T_def result_value_stored_exception)
  show "objects v tk = Some d \<and> frames v d = Some k \<and> \<not> finished k \<and>
    body k = (steps', task_throw e) \<longrightarrow>
      (\<exists>t1 h1. task_coroutine_resume_times (task_suspensions steps') promise_void v d =
            Some (t1, promise_base_final_suspend (promise k)) \<and>
          frames t1 d = Some h1 \<and> finished h1 \<and> m_exception (promise h1) = Some e \<and>
          trace t1 = trace v @ task_effects steps' \<and>
          task_result_value promise_void t1 tk = raised e \<and>
          task_co_await promise_void t1 c tk = (raised e, t1))"
    using task_failure_every_time[of v tk d k steps' e promise_void c]
    by (intro impI) (elim conjE, simp add: promise_void_def result_value_stored_exception)
  show "objects v tk = Some d \<and> frames v d = Some k \<and> \<not> finished k \<and>
    body k = (steps', task_throw e) \<and> task_synchronous steps' \<longrightarrow>
      (\<exists>t2. task_co_await promise_void v c tk = (raised e, t2) \<and>
          task_co_await promise_void t2 c tk = (raised e, t2) \<and>
          task_result_value promise_void t2 tk = raised e)"
    using task_await_failure_every_time[of v tk d k steps' e promise_void c]
    by (intro impI) (elim conjE, simp add: promise_void_def result_value_stored_exception)
qed

theorem stored_failure_rethrown_witness:
  "fst (generator_begin after_yield_world 0) = raised (runtime_error ''Goodbye'') \<and>
   fst (generator_begin (snd (generator_begin after_yield_world 0)) 0) = returned (iterator (Some 0)) \<and>
   fst (co_await_advance_op async_thrower_world 9 (async_generator_begin async_thrower_world 0)) =
     raised (runtime_error ''Goodbye'') \<and>
   fst (co_await_advance_op
          (snd (co_await_advance_op async_thrower_world 9 (async_generator_begin async_thrower_world 0))) 9
          (async_generator_begin
             (snd (co_await_advance_op async_thrower_world 9 (async_generator_begin async_thrower_world 0))) 0)) =
     returned (iterator None) \<and>
   map_option snd (task_coroutine_resume_times 1 promise_T suspending_thrower_world 0) = Some back_to_resumer \<and>
   map_option (\<lambda>r. trace (fst r)) (task_coroutine_resume_times 1 promise_T suspending_thrower_world 0) = Some [3] \<and>
   map_option (\<lambda>r. task_result_value promise_T (fst r) 0) (task_coroutine_resume_times 1 promise_T suspending_thrower_world 0) =
     Some (raised (runtime_error ''error'')) \<and>
   map_option (\<lambda>r. fst (task_co_await promise_T (fst r) 9 0)) (task_coroutine_resume_times 1 promise_T suspending_thrower_world 0) =
     Some (raised (runtime_error ''error'')) \<and>
   fst (task_co_await promise_T awaiting_thrower_world 9 0) = raised (runtime_error ''error'') \<and>
   fst (task_co_await promise_T (snd (task_co_await promise_T awaiting_thrower_world 9 0)) 9 0) =
     raised (runtime_error ''error'') \<and>
   map_option (\<lambda>r. task_result_value promise_void (fst r) 0) (task_coroutine_resume_times 0 promise_void thrower_world 0) =
     Some (raised (runtime_error ''error'')) \<and>
   fst (task_co_await promise_void thrower_world 9 0) = raised (runtime_error ''error'') \<and>
   task_result_value promise_void (snd (task_co_await promise_void thrower_world 9 0)) 0 =
     raised (runtime_error ''error'')"
proof -
  let ?f = "\<lparr>promise = \<lparr>m_exception = None, m_value = Some (1::nat)\<rparr>,
             body = [effect 7, throw (runtime_error ''Goodbye'')], finished = False\<rparr>"
  let ?g = "\<lparr>promise = \<lparr>m_exception = None, m_current_value = None :: nat option, m_consumer = None\<rparr>,
             body = [sync (throw (runtime_error ''Goodbye'')), sync (co_yield 1)], finished = False\<rparr>"
  let ?h = "\<lparr>promise = \<lparr>m_exception = None, m_next = None, m_result = None :: nat option\<rparr>,
             body = ([task_stmt.task_co_await suspend_always, task_effect 3, task_stmt.task_co_await suspend_never], task_throw (runtime_error ''error'')) :: nat task_body, finished = False\<rparr>"
  let ?j = "\<lparr>promise = \<lparr>m_exception = None, m_next = None, m_result = None :: nat option\<rparr>,
             body = ([task_stmt.task_co_await suspend_never], task_throw (runtime_error ''error'')) :: nat task_body, finished = False\<rparr>"
  let ?k = "\<lparr>promise = \<lparr>m_exception = None, m_next = None\<rparr>,
             body = ([], task_throw (runtime_error ''error'')) :: unit task_body, finished = False\<rparr>"
  have hg: "objects after_yield_world 0 = Some 0 \<and> frames after_yield_world 0 = Some ?f \<and>
      \<not> finished ?f \<and> body ?f = map effect [7] @ throw (runtime_error ''Goodbye'') # []"
    by (simp add: after_yield_world_def)
  have ha: "objects async_thrower_world 0 = Some 0 \<and> frames async_thrower_world 0 = Some ?g \<and>
      \<not> finished ?g \<and> body ?g = [] @ sync (throw (runtime_error ''Goodbye'')) # [sync (co_yield 1)] \<and>
      synchronous ([] :: nat async_stmt list) \<and> async_yields ([] :: nat async_stmt list) = []"
    by (simp add: async_thrower_world_def async_generator_call_def
        async_generator_initial_suspend_def)
  have hs: "objects suspending_thrower_world 0 = Some 0 \<and>
      frames suspending_thrower_world 0 = Some ?h \<and> \<not> finished ?h \<and>
      body ?h = ([task_stmt.task_co_await suspend_always, task_effect 3, task_stmt.task_co_await suspend_never], task_throw (runtime_error ''error''))"
    by (simp add: suspending_thrower_world_def task_call_def promise_base_initial_suspend_def
        promise_T_def)
  have ht: "objects awaiting_thrower_world 0 = Some 0 \<and>
      frames awaiting_thrower_world 0 = Some ?j \<and> \<not> finished ?j \<and>
      body ?j = ([task_stmt.task_co_await suspend_never], task_throw (runtime_error ''error'')) \<and> task_synchronous [task_stmt.task_co_await suspend_never]"
    by (simp add: awaiting_thrower_world_def task_call_def promise_base_initial_suspend_def
        promise_T_def)
  have hv: "objects thrower_world 0 = Some 0 \<and> frames thrower_world 0 = Some ?k \<and>
      \<not> finished ?k \<and> body ?k = ([], task_throw (runtime_error ''error''))"
    by (simp add: thrower_world_def task_call_def promise_base_initial_suspend_def promise_void_def)
  have hu: "objects thrower_world 0 = Some 0 \<and> frames thrower_world 0 = Some ?k \<and>
      \<not> finished ?k \<and> body ?k = ([], task_throw (runtime_error ''error'')) \<and> task_synchronous []"
    using hv by simp
  have n1: "task_suspensions [task_stmt.task_co_await suspend_always, task_effect 3, task_stmt.task_co_await suspend_never] = 1" "task_effects [task_stmt.task_co_await suspend_always, task_effect 3, task_stmt.task_co_await suspend_never] = [3]"
    "trace suspending_thrower_world = []"
    by (simp_all add: suspending_thrower_world_def task_call_def promise_base_initial_suspend_def
        empty_world_def)
  from stored_failure_rethrown
    [where w = after_yield_world and this = 0 and a = 0 and f = ?f and ns = "[7]"
       and e = "runtime_error ''Goodbye''" and rest = "[]", THEN conjunct1, THEN mp, OF hg,
     THEN conjunct2]
  have r1: "fst (generator_begin after_yield_world 0) = raised (runtime_error ''Goodbye'') \<and>
   fst (generator_begin (snd (generator_begin after_yield_world 0)) 0) = returned (iterator (Some 0))"
    by auto
  from stored_failure_rethrown
    [where u = async_thrower_world and that = 0 and b = 0 and g = ?g and pre = "[]"
       and e = "runtime_error ''Goodbye''" and rest' = "[sync (co_yield 1)]" and c = 9,
     THEN conjunct2, THEN conjunct1, THEN mp, OF ha, THEN conjunct2]
  have r2: "fst (co_await_advance_op async_thrower_world 9 (async_generator_begin async_thrower_world 0)) =
     raised (runtime_error ''Goodbye'') \<and>
   fst (co_await_advance_op
          (snd (co_await_advance_op async_thrower_world 9 (async_generator_begin async_thrower_world 0))) 9
          (async_generator_begin
             (snd (co_await_advance_op async_thrower_world 9 (async_generator_begin async_thrower_world 0))) 0)) =
     returned (iterator None)"
    by auto
  from stored_failure_rethrown
    [where t = suspending_thrower_world and tk = 0 and d = 0 and h = ?h
       and steps = "[task_stmt.task_co_await suspend_always, task_effect 3, task_stmt.task_co_await suspend_never]"
       and e = "runtime_error ''error''" and c = 9,
     THEN conjunct2, THEN conjunct2, THEN conjunct1, THEN mp, OF hs]
  have r3: "map_option snd (task_coroutine_resume_times 1 promise_T suspending_thrower_world 0) = Some back_to_resumer \<and>
   map_option (\<lambda>r. trace (fst r)) (task_coroutine_resume_times 1 promise_T suspending_thrower_world 0) = Some [3] \<and>
   map_option (\<lambda>r. task_result_value promise_T (fst r) 0) (task_coroutine_resume_times 1 promise_T suspending_thrower_world 0) =
     Some (raised (runtime_error ''error'')) \<and>
   map_option (\<lambda>r. fst (task_co_await promise_T (fst r) 9 0)) (task_coroutine_resume_times 1 promise_T suspending_thrower_world 0) =
     Some (raised (runtime_error ''error''))"
    unfolding n1 by (auto simp add: promise_base_final_suspend_def)
  from stored_failure_rethrown
    [where t = awaiting_thrower_world and tk = 0 and d = 0 and h = ?j
       and steps = "[task_stmt.task_co_await suspend_never]" and e = "runtime_error ''error''" and c = 9,
     THEN conjunct2, THEN conjunct2, THEN conjunct2, THEN conjunct1, THEN mp, OF ht]
  have r4: "fst (task_co_await promise_T awaiting_thrower_world 9 0) = raised (runtime_error ''error'') \<and>
   fst (task_co_await promise_T (snd (task_co_await promise_T awaiting_thrower_world 9 0)) 9 0) =
     raised (runtime_error ''error'')"
    by auto
  from stored_failure_rethrown
    [where v = thrower_world and tk = 0 and d = 0 and k = ?k and steps' = "[]"
       and e = "runtime_error ''error''" and c = 9,
     THEN conjunct2, THEN conjunct2, THEN conjunct2, THEN conjunct2, THEN conjunct1, THEN mp, OF hv]
  have r5: "map_option (\<lambda>r. task_result_value promise_void (fst r) 0) (task_coroutine_resume_times 0 promise_void thrower_world 0) =
     Some (raised (runtime_error ''error''))"
    by auto
  from stored_failure_rethrown
    [where v = thrower_world and tk = 0 and d = 0 and k = ?k and steps' = "[]"
       and e = "runtime_error ''error''" and c = 9,
     THEN conjunct2, THEN conjunct2, THEN conjunct2, THEN conjunct2, THEN conjunct2, THEN mp, OF hu]
  have r6: "fst (task_co_await promise_void thrower_world 9 0) = raised (runtime_error ''error'') \<and>
   task_result_value promise_void (snd (task_co_await promise_void thrower_world 9 0)) 0 =
     raised (runtime_error ''error'')"
    by auto
  from r1 r2 r3 r4 r5 r6 show ?thesis by simp
qed

text \<open>
  Claim C1 as stated says that no observation after the first rethrows the failure. The
  task of the test \<open>Exception\<close> rethrows its exception when it is awaited, when it is
  awaited again, and when its result is read after that.
\<close>

theorem task_rethrows_again_counterexample:
  "fst (task_co_await promise_void thrower_world 9 0) = raised (runtime_error ''error'') \<and>
   fst (task_co_await promise_void (snd (task_co_await promise_void thrower_world 9 0)) 9 0) =
     raised (runtime_error ''error'') \<and>
   task_result_value promise_void (snd (task_co_await promise_void thrower_world 9 0)) 0 =
     raised (runtime_error ''error'')"
  by code_simp

section \<open>Result access of a task\<close>

text \<open>
  \<open>task<T>::result_value()\<close> for a non-void \<open>T\<close>: an empty task raises
  \<open>bad_task\<close>, a task whose body has stored neither a value nor an exception raises
  \<open>bad_result_access\<close>, a stored value is returned and a stored exception is
  rethrown.
\<close>

lemma task_result_value_nonvoid:
  "(objects t this = None \<longrightarrow>
      task_result_value promise_T t this = raised (bad_task ''task is empty or destroyed'')) \<and>
   (objects t this = Some a \<and> frames t a = Some f \<and> m_exception (promise f) = None \<and>
    m_result (promise f) = None \<longrightarrow>
      task_result_value promise_T t this =
        raised (bad_result_access ''task<T> result accessed before it was set'')) \<and>
   (objects t this = Some a \<and> frames t a = Some f \<and> m_exception (promise f) = None \<and>
    m_result (promise f) = Some v \<longrightarrow>
      task_result_value promise_T t this = returned v) \<and>
   (objects t this = Some a \<and> frames t a = Some f \<and> m_exception (promise f) = Some e \<longrightarrow>
      task_result_value promise_T t this = raised e)"
  by (simp add: task_result_value_def check_coroutine_def promise_T_def
      promise_type_result_value_def promise_base_rethrow_if_exception_def)

lemma task_nonvoid_result_before_finish:
  "\<not> task_is_ready nat_value_world 0 \<and>
   task_result_value promise_T nat_value_world 0 =
     raised (bad_result_access ''task<T> result accessed before it was set'')"
  by (simp add: nat_value_world_def task_call_def promise_base_initial_suspend_def
      task_is_ready_def is_ready_def coroutine_done_def task_result_value_def
      check_coroutine_def promise_T_def promise_type_result_value_def
      promise_base_rethrow_if_exception_def empty_world_def)

text \<open>
  Claim C2. The claim reads: for every task, \<open>task<void>\<close> included, \<open>result_value()\<close>
  raises \<open>bad_task\<close> when the task is empty, \<open>bad_result_access\<close> when the body has
  not finished, and otherwise returns the value or rethrows the stored exception. For
  \<open>task<void>\<close> the code does something else in the second case:
  \<open>promise_type<void>::result_value()\<close> only rethrows a stored exception, so the
  result access of a \<open>task<void>\<close> that holds a frame without a stored exception
  returns normally, whether or not the body has finished. The theorem states what
  \<open>task<void>::result_value()\<close> does; it is used below on a \<open>task<void>\<close> that has
  just been created and never resumed.
\<close>

theorem task_void_result_value:
  "(objects t this = None \<longrightarrow>
      task_result_value promise_void t this = raised (bad_task ''task is empty or destroyed'')) \<and>
   (objects t this = Some a \<and> frames t a = Some f \<and> m_exception (promise f) = None \<longrightarrow>
      task_result_value promise_void t this = returned ()) \<and>
   (objects t this = Some a \<and> frames t a = Some f \<and> m_exception (promise f) = Some e \<longrightarrow>
      task_result_value promise_void t this = raised e)"
  by (simp add: task_result_value_def check_coroutine_def promise_void_def
      promise_void_result_value_def promise_base_rethrow_if_exception_def)

theorem task_void_result_before_finish:
  "\<not> task_is_ready void_value_world 0 \<and>
   task_result_value promise_void void_value_world 0 = returned ()"
  using task_void_result_value
    [where t = void_value_world and this = 0 and a = 0
       and f = "\<lparr>promise = \<lparr>m_exception = None, m_next = None\<rparr>,
                 body = ([], co_return ()), finished = False\<rparr>"]
  by (simp add: void_value_world_def task_call_def promise_base_initial_suspend_def
      task_is_ready_def is_ready_def coroutine_done_def empty_world_def promise_void_def)

section \<open>begin() of a generator advances by one step\<close>

lemma generator_call_begin_times_yields:
  "k < length xs \<Longrightarrow>
      \<exists>w'. generator_begin
               (generator_begin_times k (generator_call u this a (map co_yield xs)) this) this =
               (returned (iterator (Some a)), w') \<and>
            generator_iterator_deref w' (iterator (Some a)) = returned (xs ! k) \<and>
            \<not> generator_iterator_eq w' (iterator (Some a)) generator_end"
  by (rule generator_begin_times_yields[where p = "\<lparr>m_exception = None, m_value = None\<rparr>"])
     (simp_all add: generator_call_frame)

lemma generator_call_begin_times_end:
  "\<exists>w'. generator_begin
            (generator_begin_times (length xs) (generator_call u this a (map co_yield xs)) this) this =
            (returned (iterator (Some a)), w') \<and>
         generator_iterator_eq w' (iterator (Some a)) generator_end"
  by (rule generator_begin_times_end[where p = "\<lparr>m_exception = None, m_value = None\<rparr>"])
     (simp_all add: generator_call_frame)

lemma first_5_calls:
  "\<forall>j<5. \<exists>w'. generator_begin (generator_begin_times j first_5_world 0) 0 =
                  (returned (iterator (Some 0)), w') \<and>
               generator_iterator_deref w' (iterator (Some 0)) = returned j \<and>
               \<not> generator_iterator_eq w' (iterator (Some 0)) generator_end"
proof (intro allI impI)
  fix j :: nat assume j: "j < 5"
  then have "j < length [0..<5]" by simp
  from generator_call_begin_times_yields[OF this, of empty_world 0 0] j
  show "\<exists>w'. generator_begin (generator_begin_times j first_5_world 0) 0 =
                  (returned (iterator (Some 0)), w') \<and>
               generator_iterator_deref w' (iterator (Some 0)) = returned j \<and>
               \<not> generator_iterator_eq w' (iterator (Some 0)) generator_end"
    by (simp add: first_5_world_def first_n_def)
qed

lemma first_5_sixth_call:
  "\<exists>w'. generator_begin (generator_begin_times 5 first_5_world 0) 0 =
            (returned (iterator (Some 0)), w') \<and>
         generator_iterator_eq w' (iterator (Some 0)) generator_end"
  using generator_call_begin_times_end[of "[0..<5]" empty_world 0 0]
  by (simp add: first_5_world_def first_n_def)

lemma generator_call_advance_with_begin:
  "throw_free b \<Longrightarrow> length (yields b) < n \<Longrightarrow>
     \<exists>w'. advance_with_begin n (generator_call u this a b) this = Some (returned (yields b), w')"
  using advance_with_begin_yields
    [of "generator_call u this a b" this a
        "\<lparr>promise = \<lparr>m_exception = None, m_value = None\<rparr>, body = b, finished = False\<rparr>" n]
  by (simp add: generator_call_frame)

lemma first_5_advance_with_begin:
  "5 < n \<Longrightarrow> \<exists>w'. advance_with_begin n first_5_world 0 = Some (returned [0, 1, 2, 3, 4], w')"
proof -
  assume n: "5 < n"
  have u: "[0..<5] = [0, 1, 2, 3, 4::nat]" by code_simp
  have "throw_free (first_n 5)" "yields (first_n 5) = [0, 1, 2, 3, 4]"
    by (simp_all add: first_n_def yields_map_co_yield u)
  with generator_call_advance_with_begin[of "first_n 5" n empty_world 0 0] n
  show ?thesis by (simp add: first_5_world_def)
qed

text \<open>
  Claim C3. Each call of \<open>begin()\<close> resumes the coroutine once from where it is
  suspended and stops at the next \<open>co_yield\<close>: it never starts the body again. For a
  body that yields the values \<open>xs\<close>, the call number \<open>k + 1\<close> (for \<open>k\<close> below the length of
  \<open>xs\<close>) returns an iterator at \<open>xs ! k\<close>, different from \<open>end()\<close>, and the call after
  that of the last value returns an iterator equal to \<open>end()\<close>. A loop that calls
  \<open>begin()\<close> where it would increment the iterator therefore reads the values that the
  body yields, one per pass, and makes as many such calls as there are values. For the
  generator that yields 0, 1, 2, 3, 4 the iterator is first obtained by \<open>begin()\<close>, at 0;
  of the calls made instead of incrementing it, the first four return iterators at 1,
  2, 3, 4 and the fifth returns the end iterator, so that the loop of the test
  \<open>AdvanceWithBegin\<close> makes five passes and reads 0, 1, 2, 3, 4.
\<close>

theorem generator_begin_one_step:
  "(objects w this = Some a \<and> frames w a = Some f \<and> \<not> finished f \<and>
    body f = map effect ns @ co_yield v # rest \<longrightarrow>
      generator_begin w this =
        (returned (iterator (Some a)),
         w\<lparr>frames := (frames w)(a \<mapsto>
              \<lparr>promise = (promise f)\<lparr>m_value := Some v\<rparr>, body = rest, finished = False\<rparr>),
           trace := trace w @ ns\<rparr>)) \<and>
   (k < length xs \<longrightarrow>
      (\<exists>w'. generator_begin
               (generator_begin_times k (generator_call u this a (map co_yield xs)) this) this =
               (returned (iterator (Some a)), w') \<and>
            generator_iterator_deref w' (iterator (Some a)) = returned (xs ! k) \<and>
            \<not> generator_iterator_eq w' (iterator (Some a)) generator_end)) \<and>
   (\<exists>w'. generator_begin
            (generator_begin_times (length xs) (generator_call u this a (map co_yield xs)) this) this =
            (returned (iterator (Some a)), w') \<and>
         generator_iterator_eq w' (iterator (Some a)) generator_end) \<and>
   (\<forall>j<5. \<exists>w'. generator_begin (generator_begin_times j first_5_world 0) 0 =
                  (returned (iterator (Some 0)), w') \<and>
               generator_iterator_deref w' (iterator (Some 0)) = returned j \<and>
               \<not> generator_iterator_eq w' (iterator (Some 0)) generator_end) \<and>
   (\<exists>w'. generator_begin (generator_begin_times 5 first_5_world 0) 0 =
            (returned (iterator (Some 0)), w') \<and>
         generator_iterator_eq w' (iterator (Some 0)) generator_end) \<and>
   (throw_free b \<and> length (yields b) < n \<longrightarrow>
      (\<exists>w'. advance_with_begin n (generator_call u this a b) this = Some (returned (yields b), w'))) \<and>
   (5 < m \<longrightarrow>
      (\<exists>w'. advance_with_begin m first_5_world 0 = Some (returned [0, 1, 2, 3, 4], w')))"
proof (intro conjI impI)
  assume "objects w this = Some a \<and> frames w a = Some f \<and> \<not> finished f \<and>
    body f = map effect ns @ co_yield v # rest"
  then show "generator_begin w this =
        (returned (iterator (Some a)),
         w\<lparr>frames := (frames w)(a \<mapsto>
              \<lparr>promise = (promise f)\<lparr>m_value := Some v\<rparr>, body = rest, finished = False\<rparr>),
           trace := trace w @ ns\<rparr>)"
    by (simp add: generator_begin_yield)
next
  assume "k < length xs"
  then show "\<exists>w'. generator_begin
               (generator_begin_times k (generator_call u this a (map co_yield xs)) this) this =
               (returned (iterator (Some a)), w') \<and>
            generator_iterator_deref w' (iterator (Some a)) = returned (xs ! k) \<and>
            \<not> generator_iterator_eq w' (iterator (Some a)) generator_end"
    by (rule generator_call_begin_times_yields)
next
  show "\<exists>w'. generator_begin
            (generator_begin_times (length xs) (generator_call u this a (map co_yield xs)) this) this =
            (returned (iterator (Some a)), w') \<and>
         generator_iterator_eq w' (iterator (Some a)) generator_end"
    by (rule generator_call_begin_times_end)
next
  show "\<forall>j<5. \<exists>w'. generator_begin (generator_begin_times j first_5_world 0) 0 =
                  (returned (iterator (Some 0)), w') \<and>
               generator_iterator_deref w' (iterator (Some 0)) = returned j \<and>
               \<not> generator_iterator_eq w' (iterator (Some 0)) generator_end"
    by (rule first_5_calls)
next
  show "\<exists>w'. generator_begin (generator_begin_times 5 first_5_world 0) 0 =
            (returned (iterator (Some 0)), w') \<and>
         generator_iterator_eq w' (iterator (Some 0)) generator_end"
    by (rule first_5_sixth_call)
next
  assume h: "throw_free b \<and> length (yields b) < n"
  show "\<exists>w'. advance_with_begin n (generator_call u this a b) this = Some (returned (yields b), w')"
    using h[THEN conjunct1] h[THEN conjunct2] by (rule generator_call_advance_with_begin)
next
  assume "5 < m"
  then show "\<exists>w'. advance_with_begin m first_5_world 0 = Some (returned [0, 1, 2, 3, 4], w')"
    by (rule first_5_advance_with_begin)
qed

theorem generator_begin_one_step_witness:
  "(4::nat) < length [0, 1, 2, 3, 4::nat] \<and>
   fst (generator_begin
          (generator_begin_times 4 (generator_call empty_world 0 0 (map co_yield [0, 1, 2, 3, 4::nat])) 0) 0) =
     returned (iterator (Some 0)) \<and>
   generator_iterator_deref
     (snd (generator_begin
          (generator_begin_times 4 (generator_call empty_world 0 0 (map co_yield [0, 1, 2, 3, 4::nat])) 0) 0))
     (iterator (Some 0)) = returned 4 \<and>
   fst (generator_begin (generator_begin_times 5 first_5_world 0) 0) = returned (iterator (Some 0)) \<and>
   generator_iterator_eq (snd (generator_begin (generator_begin_times 5 first_5_world 0) 0))
     (iterator (Some 0)) generator_end \<and>
   (5::nat) < 7 \<and>
   map_option fst (advance_with_begin 7 first_5_world 0) = Some (returned [0, 1, 2, 3, 4])"
proof -
  have four: "(4::nat) < length [0, 1, 2, 3, 4::nat]" by simp
  note inst = generator_begin_one_step
    [where k = 4 and xs = "[0, 1, 2, 3, 4::nat]" and u = empty_world and this = 0 and a = 0]
  from inst[THEN conjunct2, THEN conjunct1] four
  have "\<exists>w'. generator_begin
               (generator_begin_times 4 (generator_call empty_world 0 0 (map co_yield [0, 1, 2, 3, 4::nat])) 0) 0 =
               (returned (iterator (Some 0)), w') \<and>
            generator_iterator_deref w' (iterator (Some 0)) = returned ([0, 1, 2, 3, 4::nat] ! 4) \<and>
            \<not> generator_iterator_eq w' (iterator (Some 0)) generator_end"
    by (rule mp)
  then have b: "fst (generator_begin
          (generator_begin_times 4 (generator_call empty_world 0 0 (map co_yield [0, 1, 2, 3, 4::nat])) 0) 0) =
     returned (iterator (Some 0)) \<and>
   generator_iterator_deref
     (snd (generator_begin
          (generator_begin_times 4 (generator_call empty_world 0 0 (map co_yield [0, 1, 2, 3, 4::nat])) 0) 0))
     (iterator (Some 0)) = returned 4"
    by auto
  from inst[THEN conjunct2, THEN conjunct2, THEN conjunct2, THEN conjunct2, THEN conjunct1]
  have c: "fst (generator_begin (generator_begin_times 5 first_5_world 0) 0) = returned (iterator (Some 0)) \<and>
   generator_iterator_eq (snd (generator_begin (generator_begin_times 5 first_5_world 0) 0))
     (iterator (Some 0)) generator_end"
    by auto
  have seven: "(5::nat) < 7" by simp
  from generator_begin_one_step
    [where m = 7, THEN conjunct2, THEN conjunct2, THEN conjunct2, THEN conjunct2,
     THEN conjunct2, THEN conjunct2] seven
  have "\<exists>w'. advance_with_begin 7 first_5_world 0 = Some (returned [0, 1, 2, 3, 4], w')"
    by (rule mp)
  then have l: "map_option fst (advance_with_begin 7 first_5_world 0) = Some (returned [0, 1, 2, 3, 4])"
    by auto
  from four b c seven l show ?thesis by simp
qed

section \<open>Lazy start\<close>

text \<open>
  Claim C4. Calling a generator, asynchronous generator or task coroutine function
  leaves the trace of side effects as it was and leaves the new frame suspended before
  the first statement of its body: the whole body is still to run, the promise is in its
  initial state and the coroutine is not done. Destroying the object right away runs
  nothing either. The body starts only with the first resume, advance or await.
\<close>

theorem construction_runs_no_body_code:
  "trace (generator_call w this a b) = trace w \<and>
   frames (generator_call w this a b) a =
     Some \<lparr>promise = \<lparr>m_exception = None, m_value = None\<rparr>, body = b, finished = False\<rparr> \<and>
   is_good_handle (generator_call w this a b) (objects (generator_call w this a b) this) \<and>
   trace (generator_destructor (generator_call w this a b) this) = trace w \<and>
   trace (async_generator_call u this a d) = trace u \<and>
   frames (async_generator_call u this a d) a =
     Some \<lparr>promise = \<lparr>m_exception = None, m_current_value = None, m_consumer = None\<rparr>,
           body = d, finished = False\<rparr> \<and>
   is_good_handle (async_generator_call u this a d) (objects (async_generator_call u this a d) this) \<and>
   trace (async_generator_destructor (async_generator_call u this a d) this) = trace u \<and>
   trace (task_call P t this a e) = trace t \<and>
   frames (task_call P t this a e) a =
     Some \<lparr>promise = initial_promise P, body = e, finished = False\<rparr> \<and>
   \<not> task_is_ready (task_call P t this a e) this \<and>
   trace (task_destructor (task_call P t this a e) this) = trace t"
  by (simp add: generator_call_def generator_initial_suspend_def async_generator_call_def
      async_generator_initial_suspend_def task_call_def promise_base_initial_suspend_def
      is_good_handle_def coroutine_done_def generator_destructor_def
      async_generator_destructor_def task_destructor_def coroutine_destroy_def
      task_is_ready_def is_ready_def)

theorem construction_runs_no_body_code_witness:
  "trace (generator_call (empty_world :: nat generator_world) 0 0 [effect 1, co_yield 1983]) = [] \<and>
   trace (snd (generator_begin
      (generator_call (empty_world :: nat generator_world) 0 0 [effect 1, co_yield 1983]) 0)) = [1] \<and>
   trace (async_generator_call (empty_world :: nat async_generator_world) 0 0
      [sync (effect 1), sync (co_yield 1983)]) = [] \<and>
   trace (snd (co_await_advance_op
      (async_generator_call (empty_world :: nat async_generator_world) 0 0
         [sync (effect 1), sync (co_yield 1983)]) 9
      (async_generator_begin
         (async_generator_call (empty_world :: nat async_generator_world) 0 0
            [sync (effect 1), sync (co_yield 1983)]) 0))) = [1] \<and>
   trace (task_call promise_void empty_world 0 0 ([task_effect 1], co_return ())) = [] \<and>
   trace (snd (task_co_await promise_void
      (task_call promise_void empty_world 0 0 ([task_effect 1], co_return ())) 9 0)) = [1]"
proof -
  have e: "trace (empty_world :: ('p, 'c) world) = []" by (simp add: empty_world_def)
  note inst = construction_runs_no_body_code
    [where w = "empty_world :: nat generator_world" and this = 0 and a = 0
       and b = "[effect 1, co_yield 1983]"
       and u = "empty_world :: nat async_generator_world"
       and d = "[sync (effect 1), sync (co_yield 1983)]"
       and P = promise_void and t = empty_world and e = "([task_effect 1], co_return ())"]
  have g: "trace (generator_call (empty_world :: nat generator_world) 0 0 [effect 1, co_yield 1983]) = []"
    using inst[THEN conjunct1] by (simp add: empty_world_def)
  have ag: "trace (async_generator_call (empty_world :: nat async_generator_world) 0 0
      [sync (effect 1), sync (co_yield 1983)]) = []"
    using inst[THEN conjunct2, THEN conjunct2, THEN conjunct2, THEN conjunct2, THEN conjunct1]
    by (simp add: empty_world_def)
  have tk: "trace (task_call promise_void empty_world 0 0 ([task_effect 1], co_return ())) = []"
    using inst[THEN conjunct2, THEN conjunct2, THEN conjunct2, THEN conjunct2,
       THEN conjunct2, THEN conjunct2, THEN conjunct2, THEN conjunct2, THEN conjunct1]
    by (simp add: empty_world_def)
  have g1: "trace (snd (generator_begin
      (generator_call (empty_world :: nat generator_world) 0 0 [effect 1, co_yield 1983]) 0)) = [1]"
    by code_simp
  have ag1: "trace (snd (co_await_advance_op
      (async_generator_call (empty_world :: nat async_generator_world) 0 0
         [sync (effect 1), sync (co_yield 1983)]) 9
      (async_generator_begin
         (async_generator_call (empty_world :: nat async_generator_world) 0 0
            [sync (effect 1), sync (co_yield 1983)]) 0))) = [1]"
    by code_simp
  have tk1: "trace (snd (task_co_await promise_void
      (task_call promise_void empty_world 0 0 ([task_effect 1], co_return ())) 9 0)) = [1]"
    by code_simp
  from g ag tk g1 ag1 tk1 show ?thesis by simp
qed

section \<open>begin() of an exhausted generator\<close>

lemma async_generator_begin_times_not_good:
  "\<not> is_good_handle w (objects w this) \<Longrightarrow> async_generator_begin_times k w c this = w"
  by (induction k) (simp_all add: co_await_begin_not_good)

lemma not_good_eq_end:
  "\<not> is_good_handle w h \<Longrightarrow> generator_iterator_eq w (iterator h) generator_end"
  by (simp add: generator_iterator_eq_def generator_end_def is_good_handle_def)

text \<open>
  Claim C5. On a generator whose handle is not good, which is the case once its
  coroutine is done (and also for an empty generator), \<open>begin()\<close> returns an iterator
  equal to \<open>end()\<close> and leaves the store as it was: no frame changes and no side effect is
  added to the trace, whatever the number of further calls. The same holds for an
  asynchronous generator and the awaited \<open>begin()\<close>, whose result equals the sentinel
  that \<open>end()\<close> returns.
\<close>

theorem exhausted_begin_is_end:
  "(\<not> is_good_handle w (objects w this) \<longrightarrow>
      generator_begin w this = (returned (iterator (objects w this)), w) \<and>
      generator_iterator_eq w (iterator (objects w this)) generator_end \<and>
      generator_begin_times k w this = w) \<and>
   (\<not> is_good_handle u (objects u that) \<longrightarrow>
      co_await_advance_op u c (async_generator_begin u that) = (returned (iterator None), u) \<and>
      async_generator_iterator_eq_sentinel u (iterator None) \<and>
      async_generator_begin_times k u c that = u)"
  by (simp add: generator_begin_not_good not_good_eq_end generator_begin_times_not_good
      co_await_begin_not_good async_generator_begin_times_not_good
      async_generator_iterator_eq_sentinel_def is_good_handle_def)

theorem exhausted_begin_is_end_witness:
  "objects first_5_exhausted 0 = Some 0 \<and> coroutine_done first_5_exhausted 0 \<and>
   generator_begin first_5_exhausted 0 = (returned (iterator (Some 0)), first_5_exhausted) \<and>
   generator_iterator_eq first_5_exhausted (iterator (Some 0)) generator_end \<and>
   generator_begin_times 3 first_5_exhausted 0 = first_5_exhausted \<and>
   objects async_first_5_exhausted 0 = Some 0 \<and> coroutine_done async_first_5_exhausted 0 \<and>
   co_await_advance_op async_first_5_exhausted 9 (async_generator_begin async_first_5_exhausted 0) =
     (returned (iterator None), async_first_5_exhausted) \<and>
   async_generator_iterator_eq_sentinel async_first_5_exhausted (iterator None) \<and>
   async_generator_begin_times 3 async_first_5_exhausted 9 0 = async_first_5_exhausted"
proof -
  have g: "objects first_5_exhausted 0 = Some 0 \<and> coroutine_done first_5_exhausted 0"
    by code_simp
  have a: "objects async_first_5_exhausted 0 = Some 0 \<and> coroutine_done async_first_5_exhausted 0"
    by code_simp
  from g have ng: "\<not> is_good_handle first_5_exhausted (objects first_5_exhausted 0)"
    by (simp add: is_good_handle_def)
  from a have na: "\<not> is_good_handle async_first_5_exhausted (objects async_first_5_exhausted 0)"
    by (simp add: is_good_handle_def)
  note inst = exhausted_begin_is_end
    [where w = first_5_exhausted and this = 0 and k = 3 and u = async_first_5_exhausted
       and that = 0 and c = 9]
  from inst[THEN conjunct1] ng g
  have r1: "generator_begin first_5_exhausted 0 = (returned (iterator (Some 0)), first_5_exhausted) \<and>
   generator_iterator_eq first_5_exhausted (iterator (Some 0)) generator_end \<and>
   generator_begin_times 3 first_5_exhausted 0 = first_5_exhausted"
    by simp
  from inst[THEN conjunct2] na
  have r2: "co_await_advance_op async_first_5_exhausted 9 (async_generator_begin async_first_5_exhausted 0) =
     (returned (iterator None), async_first_5_exhausted) \<and>
   async_generator_iterator_eq_sentinel async_first_5_exhausted (iterator None) \<and>
   async_generator_begin_times 3 async_first_5_exhausted 9 0 = async_first_5_exhausted"
    by simp
  from g a r1 r2 show ?thesis by simp
qed

section \<open>Equality of iterators\<close>

lemma not_good_iff:
  "\<not> is_good_handle w h \<longleftrightarrow> h = None \<or> (\<exists>a. h = Some a \<and> coroutine_done w a)"
  by (cases h) (simp_all add: is_good_handle_def)

lemma generator_begin_done:
  "objects w this = Some a \<Longrightarrow> coroutine_done w a \<Longrightarrow>
     generator_begin w this = (returned (iterator (Some a)), w)"
  using generator_begin_not_good[of w this] by (simp add: is_good_handle_def)

text \<open>
  Claim C6. Two generator iterators, and two iterators of an asynchronous generator,
  compare equal exactly when they hold the same coroutine handle or each of them holds a
  handle that is null or whose coroutine is done. The relation is symmetric. Hence the
  iterators that \<open>begin()\<close> returns for two different generators that are both
  exhausted compare equal, in both orders, although their handles differ.
\<close>

theorem iterator_equality:
  "(generator_iterator_eq w i j \<longleftrightarrow>
      m_coroutine i = m_coroutine j \<or>
      ((m_coroutine i = None \<or> (\<exists>a. m_coroutine i = Some a \<and> coroutine_done w a)) \<and>
       (m_coroutine j = None \<or> (\<exists>b. m_coroutine j = Some b \<and> coroutine_done w b)))) \<and>
   (generator_iterator_eq w i j \<longleftrightarrow> generator_iterator_eq w j i) \<and>
   (async_generator_iterator_eq u i j \<longleftrightarrow>
      m_coroutine i = m_coroutine j \<or>
      ((m_coroutine i = None \<or> (\<exists>a. m_coroutine i = Some a \<and> coroutine_done u a)) \<and>
       (m_coroutine j = None \<or> (\<exists>b. m_coroutine j = Some b \<and> coroutine_done u b)))) \<and>
   (async_generator_iterator_eq u i j \<longleftrightarrow> async_generator_iterator_eq u j i) \<and>
   (objects w g1 = Some a1 \<and> objects w g2 = Some a2 \<and> a1 \<noteq> a2 \<and>
    coroutine_done w a1 \<and> coroutine_done w a2 \<longrightarrow>
      generator_begin w g1 = (returned (iterator (Some a1)), w) \<and>
      generator_begin w g2 = (returned (iterator (Some a2)), w) \<and>
      generator_iterator_eq w (iterator (Some a1)) (iterator (Some a2)) \<and>
      generator_iterator_eq w (iterator (Some a2)) (iterator (Some a1))) \<and>
   (a1 \<noteq> a2 \<and> coroutine_done u a1 \<and> coroutine_done u a2 \<longrightarrow>
      async_generator_iterator_eq u (iterator (Some a1)) (iterator (Some a2)) \<and>
      async_generator_iterator_eq u (iterator (Some a2)) (iterator (Some a1)))"
proof (intro conjI)
  show "generator_iterator_eq w i j \<longleftrightarrow>
      m_coroutine i = m_coroutine j \<or>
      ((m_coroutine i = None \<or> (\<exists>a. m_coroutine i = Some a \<and> coroutine_done w a)) \<and>
       (m_coroutine j = None \<or> (\<exists>b. m_coroutine j = Some b \<and> coroutine_done w b)))"
    by (simp add: generator_iterator_eq_def not_good_iff)
  show "generator_iterator_eq w i j \<longleftrightarrow> generator_iterator_eq w j i"
    by (auto simp: generator_iterator_eq_def)
  show "async_generator_iterator_eq u i j \<longleftrightarrow>
      m_coroutine i = m_coroutine j \<or>
      ((m_coroutine i = None \<or> (\<exists>a. m_coroutine i = Some a \<and> coroutine_done u a)) \<and>
       (m_coroutine j = None \<or> (\<exists>b. m_coroutine j = Some b \<and> coroutine_done u b)))"
    by (simp add: async_generator_iterator_eq_def not_good_iff)
  show "async_generator_iterator_eq u i j \<longleftrightarrow> async_generator_iterator_eq u j i"
    by (auto simp: async_generator_iterator_eq_def)
  show "objects w g1 = Some a1 \<and> objects w g2 = Some a2 \<and> a1 \<noteq> a2 \<and>
    coroutine_done w a1 \<and> coroutine_done w a2 \<longrightarrow>
      generator_begin w g1 = (returned (iterator (Some a1)), w) \<and>
      generator_begin w g2 = (returned (iterator (Some a2)), w) \<and>
      generator_iterator_eq w (iterator (Some a1)) (iterator (Some a2)) \<and>
      generator_iterator_eq w (iterator (Some a2)) (iterator (Some a1))"
    by (simp add: generator_begin_done generator_iterator_eq_def is_good_handle_def)
  show "a1 \<noteq> a2 \<and> coroutine_done u a1 \<and> coroutine_done u a2 \<longrightarrow>
      async_generator_iterator_eq u (iterator (Some a1)) (iterator (Some a2)) \<and>
      async_generator_iterator_eq u (iterator (Some a2)) (iterator (Some a1))"
    by (simp add: async_generator_iterator_eq_def is_good_handle_def)
qed

theorem iterator_equality_witness:
  "objects two_exhausted_world 0 = Some 0 \<and> objects two_exhausted_world 1 = Some 1 \<and>
   coroutine_done two_exhausted_world 0 \<and> coroutine_done two_exhausted_world 1 \<and>
   generator_begin two_exhausted_world 0 = (returned (iterator (Some 0)), two_exhausted_world) \<and>
   generator_begin two_exhausted_world 1 = (returned (iterator (Some 1)), two_exhausted_world) \<and>
   generator_iterator_eq two_exhausted_world (iterator (Some 0)) (iterator (Some 1)) \<and>
   generator_iterator_eq two_exhausted_world (iterator (Some 1)) (iterator (Some 0)) \<and>
   \<not> coroutine_done second_exhausted_world 0 \<and> coroutine_done second_exhausted_world 1 \<and>
   \<not> generator_iterator_eq second_exhausted_world (iterator (Some 0)) (iterator (Some 1)) \<and>
   \<not> generator_iterator_eq second_exhausted_world (iterator (Some 1)) (iterator (Some 0))"
proof -
  have e: "objects two_exhausted_world 0 = Some 0 \<and> objects two_exhausted_world 1 = Some 1 \<and>
     (0::nat) \<noteq> 1 \<and> coroutine_done two_exhausted_world 0 \<and> coroutine_done two_exhausted_world 1"
    by code_simp
  have s: "\<not> coroutine_done second_exhausted_world 0 \<and> coroutine_done second_exhausted_world 1"
    by code_simp
  note both = iterator_equality[where w = two_exhausted_world and ?g1.0 = 0 and ?g2.0 = 1
      and ?a1.0 = 0 and ?a2.0 = 1]
  from both[THEN conjunct2, THEN conjunct2, THEN conjunct2, THEN conjunct2, THEN conjunct1] e
  have r1: "generator_begin two_exhausted_world 0 = (returned (iterator (Some 0)), two_exhausted_world) \<and>
   generator_begin two_exhausted_world 1 = (returned (iterator (Some 1)), two_exhausted_world) \<and>
   generator_iterator_eq two_exhausted_world (iterator (Some 0)) (iterator (Some 1)) \<and>
   generator_iterator_eq two_exhausted_world (iterator (Some 1)) (iterator (Some 0))"
    by (rule mp)
  note one = iterator_equality[where w = second_exhausted_world
      and i = "iterator (Some 0)" and j = "iterator (Some 1)"]
  from one[THEN conjunct1] s
  have r2: "\<not> generator_iterator_eq second_exhausted_world (iterator (Some 0)) (iterator (Some 1))"
    by simp
  from one[THEN conjunct2, THEN conjunct1] r2
  have r3: "\<not> generator_iterator_eq second_exhausted_world (iterator (Some 1)) (iterator (Some 0))"
    by simp
  from e s r1 r2 r3 show ?thesis by simp
qed

section \<open>Incrementing and dereferencing a generator iterator\<close>

text \<open>
  Claim C7. For a generator iterator whose handle is null or whose coroutine is done,
  and so for the iterator that \<open>end()\<close> returns, prefix increment raises
  \<open>bad_result_access\<close> and leaves the store as it was, and dereference raises
  \<open>bad_result_access\<close>. For an iterator with a live handle, prefix increment resumes the
  coroutine once: it runs the side effects up to the next \<open>co_yield\<close> and stops there
  with the yielded value stored, or it runs to the end of the body, or an exception
  leaves the body and the increment rethrows it.
\<close>

theorem generator_iterator_past_the_end:
  "(\<not> is_good_handle w (m_coroutine i) \<longrightarrow>
      generator_iterator_inc w i =
        (raised (bad_result_access ''Incrementing past the end of the generator''), w) \<and>
      generator_iterator_deref w i =
        raised (bad_result_access ''Access past the end of the generator'')) \<and>
   generator_iterator_inc w generator_end =
     (raised (bad_result_access ''Incrementing past the end of the generator''), w) \<and>
   generator_iterator_deref w generator_end =
     raised (bad_result_access ''Access past the end of the generator'') \<and>
   (m_coroutine i = Some a \<and> frames w a = Some f \<and> \<not> finished f \<longrightarrow>
      is_good_handle w (m_coroutine i) \<and>
      (body f = map effect ns @ co_yield v # rest \<longrightarrow>
         generator_iterator_inc w i =
           (returned i,
            w\<lparr>frames := (frames w)(a \<mapsto>
                 \<lparr>promise = (promise f)\<lparr>m_value := Some v\<rparr>, body = rest, finished = False\<rparr>),
              trace := trace w @ ns\<rparr>)) \<and>
      (body f = map effect ns @ throw e # rest \<longrightarrow>
         generator_iterator_inc w i =
           (raised e,
            w\<lparr>frames := (frames w)(a \<mapsto>
                 \<lparr>promise = (promise f)\<lparr>m_exception := None\<rparr>, body = [], finished = True\<rparr>),
              trace := trace w @ ns\<rparr>)) \<and>
      (body f = map effect ns \<and> m_exception (promise f) = None \<longrightarrow>
         generator_iterator_inc w i =
           (returned i,
            w\<lparr>frames := (frames w)(a \<mapsto> \<lparr>promise = promise f, body = [], finished = True\<rparr>),
              trace := trace w @ ns\<rparr>)))"
proof (intro conjI impI)
  show "generator_iterator_inc w generator_end =
     (raised (bad_result_access ''Incrementing past the end of the generator''), w)"
    by (simp add: generator_iterator_inc_def generator_end_def)
  show "generator_iterator_deref w generator_end =
     raised (bad_result_access ''Access past the end of the generator'')"
    by (simp add: generator_iterator_deref_def generator_end_def)
qed (auto simp: generator_iterator_inc_not_good generator_iterator_deref_not_good
      is_good_handle_live generator_iterator_inc_yield generator_iterator_inc_throw
      generator_iterator_inc_return)

theorem generator_iterator_past_the_end_witness:
  "snd (generator_begin (generator_call empty_world 0 0
          [co_yield 1, effect 7, throw (runtime_error ''Goodbye'')]) 0) = after_yield_world \<and>
   generator_iterator_inc after_yield_world (iterator (Some 0)) =
     (raised (runtime_error ''Goodbye''), after_throw_world) \<and>
   \<not> is_good_handle after_throw_world (m_coroutine (iterator (Some 0))) \<and>
   generator_iterator_inc after_throw_world (iterator (Some 0)) =
     (raised (bad_result_access ''Incrementing past the end of the generator''), after_throw_world) \<and>
   generator_iterator_deref after_throw_world (iterator (Some 0)) =
     raised (bad_result_access ''Access past the end of the generator'')"
proof -
  let ?f = "\<lparr>promise = \<lparr>m_exception = None, m_value = Some (1::nat)\<rparr>,
             body = [effect 7, throw (runtime_error ''Goodbye'')], finished = False\<rparr>"
  have reached: "snd (generator_begin (generator_call empty_world 0 0
          [co_yield 1, effect 7, throw (runtime_error ''Goodbye'')]) 0) = after_yield_world"
    by (simp add: generator_begin_def generator_advance_def generator_call_def empty_world_def
        generator_initial_suspend_def is_good_handle_def coroutine_done_def generator_resume_def
        generator_yield_value_def after_yield_world_def)
  have live: "m_coroutine (iterator (Some 0)) = Some 0 \<and>
      frames after_yield_world 0 = Some ?f \<and> \<not> finished ?f"
    by (simp add: after_yield_world_def)
  have shape: "body ?f = map effect [7] @ throw (runtime_error ''Goodbye'') # []"
    by simp
  have ng: "\<not> is_good_handle after_throw_world (m_coroutine (iterator (Some 0)))"
    by (simp add: after_throw_world_def is_good_handle_def coroutine_done_def)
  have next_world:
    "after_yield_world\<lparr>frames := (frames after_yield_world)(0 \<mapsto>
         \<lparr>promise = (promise ?f)\<lparr>m_exception := None\<rparr>, body = [], finished = True\<rparr>),
       trace := trace after_yield_world @ [7]\<rparr> = after_throw_world"
    by (simp add: after_yield_world_def after_throw_world_def)
  from generator_iterator_past_the_end
    [where w = after_yield_world and i = "iterator (Some 0)" and a = 0 and f = ?f
       and ns = "[7]" and e = "runtime_error ''Goodbye''" and rest = "[]"]
    live shape next_world
  have step: "generator_iterator_inc after_yield_world (iterator (Some 0)) =
     (raised (runtime_error ''Goodbye''), after_throw_world)"
    by simp
  from generator_iterator_past_the_end
    [where w = after_throw_world and i = "iterator (Some 0)"] ng
  have past: "generator_iterator_inc after_throw_world (iterator (Some 0)) =
     (raised (bad_result_access ''Incrementing past the end of the generator''), after_throw_world) \<and>
   generator_iterator_deref after_throw_world (iterator (Some 0)) =
     raised (bad_result_access ''Access past the end of the generator'')"
    by blast
  from reached step ng past show ?thesis by blast
qed

section \<open>Moving tasks and generators\<close>

lemma task_move_construct_facts:
  assumes "this \<noteq> other"
  shows "objects (task_move_construct w this other) other = None"
    and "objects (task_move_construct w this other) this = objects w other"
    and "frames (task_move_construct w this other) = frames w"
    and "trace (task_move_construct w this other) = trace w"
  using assms by (simp_all add: task_move_construct_def Let_def)

lemma task_move_assign_order:
  "this \<noteq> other \<Longrightarrow>
     task_move_assign w this other = task_move_construct (task_destructor w this) this other"
  by (simp add: task_move_assign_def task_move_construct_def task_destructor_def Let_def)

lemma task_move_assign_facts:
  assumes "this \<noteq> other"
  shows "frames (task_move_assign w this other) =
           (case objects w this of None \<Rightarrow> frames w | Some a \<Rightarrow> (frames w)(a := None))"
    and "objects (task_move_assign w this other) this = objects w other"
    and "objects (task_move_assign w this other) other = None"
    and "trace (task_move_assign w this other) = trace w"
  using assms
  by (auto simp: task_move_assign_def coroutine_destroy_def Let_def split: option.splits)

lemma generator_move_construct_facts:
  assumes "this \<noteq> other"
  shows "objects (generator_move_construct u this other) other = None"
    and "objects (generator_move_construct u this other) this = objects u other"
    and "frames (generator_move_construct u this other) = frames u"
    and "trace (generator_move_construct u this other) = trace u"
  using assms by (simp_all add: generator_move_construct_def Let_def)

lemma generator_move_assign_order:
  "this \<noteq> other \<Longrightarrow>
     generator_move_assign u this other =
       generator_move_construct (generator_destructor u this) this other"
  by (simp add: generator_move_assign_def generator_move_construct_def generator_destructor_def
      Let_def)

lemma generator_move_assign_facts:
  assumes "this \<noteq> other"
  shows "frames (generator_move_assign u this other) =
           (case objects u this of None \<Rightarrow> frames u | Some a \<Rightarrow> (frames u)(a := None))"
    and "objects (generator_move_assign u this other) this = objects u other"
    and "objects (generator_move_assign u this other) other = None"
    and "trace (generator_move_assign u this other) = trace u"
  using assms
  by (auto simp: generator_move_assign_def coroutine_destroy_def Let_def split: option.splits)

lemma task_move_construct_result:
  "this \<noteq> other \<Longrightarrow>
     task_result_value P (task_move_construct w this other) this = task_result_value P w other"
  unfolding task_result_value_def
  by (simp add: task_move_construct_facts cong: outcome.case_cong option.case_cong)

text \<open>
  Claim C8. For tasks and for generators alike: the move constructor leaves the source
  object with a null handle, and the new object with the source's handle and frame; the
  moved-from task is ready, resuming it does nothing, and reading or awaiting its result
  raises \<open>bad_task\<close>; \<open>begin()\<close> of the moved-from generator returns the end iterator.
  Move assignment to itself changes nothing. Move assignment from another object is the
  destructor of the target followed by what the move constructor does: the frame that the
  target owned is removed from the store, every other frame stays, the target holds the
  source's handle and the source holds a null handle.
\<close>

theorem move_leaves_source_empty:
  "(this \<noteq> other \<longrightarrow>
      objects (task_move_construct w this other) other = None \<and>
      objects (task_move_construct w this other) this = objects w other \<and>
      frames (task_move_construct w this other) = frames w \<and>
      trace (task_move_construct w this other) = trace w \<and>
      task_is_ready (task_move_construct w this other) other \<and>
      task_result_value P (task_move_construct w this other) other =
        raised (bad_task ''task is empty or destroyed'') \<and>
      task_co_await P (task_move_construct w this other) c other =
        (raised (bad_task ''task is empty or destroyed''), task_move_construct w this other) \<and>
      task_resume P (task_move_construct w this other) other =
        ((returned False, back_to_resumer), task_move_construct w this other) \<and>
      task_result_value P (task_move_construct w this other) this = task_result_value P w other) \<and>
   task_move_assign w this this = w \<and>
   (this \<noteq> other \<longrightarrow>
      task_move_assign w this other = task_move_construct (task_destructor w this) this other \<and>
      frames (task_move_assign w this other) =
        (case objects w this of None \<Rightarrow> frames w | Some a \<Rightarrow> (frames w)(a := None)) \<and>
      objects (task_move_assign w this other) this = objects w other \<and>
      objects (task_move_assign w this other) other = None \<and>
      trace (task_move_assign w this other) = trace w \<and>
      task_is_ready (task_move_assign w this other) other \<and>
      task_result_value P (task_move_assign w this other) other =
        raised (bad_task ''task is empty or destroyed'')) \<and>
   (this \<noteq> other \<longrightarrow>
      objects (generator_move_construct u this other) other = None \<and>
      objects (generator_move_construct u this other) this = objects u other \<and>
      frames (generator_move_construct u this other) = frames u \<and>
      trace (generator_move_construct u this other) = trace u \<and>
      generator_begin (generator_move_construct u this other) other =
        (returned (iterator None), generator_move_construct u this other) \<and>
      generator_iterator_eq (generator_move_construct u this other) (iterator None) generator_end) \<and>
   generator_move_assign u this this = u \<and>
   (this \<noteq> other \<longrightarrow>
      generator_move_assign u this other =
        generator_move_construct (generator_destructor u this) this other \<and>
      frames (generator_move_assign u this other) =
        (case objects u this of None \<Rightarrow> frames u | Some a \<Rightarrow> (frames u)(a := None)) \<and>
      objects (generator_move_assign u this other) this = objects u other \<and>
      objects (generator_move_assign u this other) other = None \<and>
      trace (generator_move_assign u this other) = trace u \<and>
      generator_begin (generator_move_assign u this other) other =
        (returned (iterator None), generator_move_assign u this other) \<and>
      generator_iterator_eq (generator_move_assign u this other) (iterator None) generator_end)"
proof (intro conjI impI)
  show "task_move_assign w this this = w" by (simp add: task_move_assign_def)
  show "generator_move_assign u this this = u" by (simp add: generator_move_assign_def)
next
  assume "this \<noteq> other"
  then show "task_move_assign w this other =
      task_move_construct (task_destructor w this) this other"
    by (rule task_move_assign_order)
next
  assume "this \<noteq> other"
  then show "generator_move_assign u this other =
      generator_move_construct (generator_destructor u this) this other"
    by (rule generator_move_assign_order)
qed (simp_all add: task_move_construct_facts task_move_assign_facts
       generator_move_construct_facts generator_move_assign_facts
       task_empty_observations generator_empty_begin none_eq_end task_move_construct_result)

theorem move_leaves_source_empty_witness:
  "(1::nat) \<noteq> 0 \<and>
   objects two_tasks_world 0 = Some 0 \<and> objects two_tasks_world 1 = Some 1 \<and>
   frames (task_move_assign two_tasks_world 1 0) 1 = None \<and>
   frames (task_move_assign two_tasks_world 1 0) 0 = frames two_tasks_world 0 \<and>
   objects (task_move_assign two_tasks_world 1 0) 1 = Some 0 \<and>
   objects (task_move_assign two_tasks_world 1 0) 0 = None \<and>
   task_is_ready (task_move_assign two_tasks_world 1 0) 0 \<and>
   task_result_value promise_T (task_move_assign two_tasks_world 1 0) 0 =
     raised (bad_task ''task is empty or destroyed'') \<and>
   task_move_assign two_tasks_world 0 0 = two_tasks_world \<and>
   objects two_generators_world 0 = Some 0 \<and> objects two_generators_world 1 = Some 1 \<and>
   frames (generator_move_assign two_generators_world 1 0) 1 = None \<and>
   objects (generator_move_assign two_generators_world 1 0) 1 = Some 0 \<and>
   generator_begin (generator_move_assign two_generators_world 1 0) 0 =
     (returned (iterator None), generator_move_assign two_generators_world 1 0) \<and>
   generator_move_assign two_generators_world 0 0 = two_generators_world"
proof -
  have ne: "(1::nat) \<noteq> 0" by simp
  have t: "objects two_tasks_world 0 = Some 0 \<and> objects two_tasks_world 1 = Some 1"
    by (simp add: two_tasks_world_def task_call_def promise_base_initial_suspend_def)
  have g: "objects two_generators_world 0 = Some 0 \<and> objects two_generators_world 1 = Some 1"
    by (simp add: two_generators_world_def generator_call_def generator_initial_suspend_def)
  note inst = move_leaves_source_empty
    [where this = 1 and other = 0 and w = two_tasks_world and P = promise_T
       and u = two_generators_world]
  note self = move_leaves_source_empty
    [where this = 0 and other = 0 and w = two_tasks_world and u = two_generators_world]
  from inst[THEN conjunct2, THEN conjunct2, THEN conjunct1, THEN mp, OF ne, THEN conjunct2] t
  have r1: "frames (task_move_assign two_tasks_world 1 0) 1 = None \<and>
   frames (task_move_assign two_tasks_world 1 0) 0 = frames two_tasks_world 0 \<and>
   objects (task_move_assign two_tasks_world 1 0) 1 = Some 0 \<and>
   objects (task_move_assign two_tasks_world 1 0) 0 = None \<and>
   task_is_ready (task_move_assign two_tasks_world 1 0) 0 \<and>
   task_result_value promise_T (task_move_assign two_tasks_world 1 0) 0 =
     raised (bad_task ''task is empty or destroyed'')"
    by simp
  from self[THEN conjunct2, THEN conjunct1]
  have r2: "task_move_assign two_tasks_world 0 0 = two_tasks_world" .
  from inst[THEN conjunct2, THEN conjunct2, THEN conjunct2, THEN conjunct2, THEN conjunct2,
      THEN mp, OF ne, THEN conjunct2] g
  have r3: "frames (generator_move_assign two_generators_world 1 0) 1 = None \<and>
   objects (generator_move_assign two_generators_world 1 0) 1 = Some 0 \<and>
   generator_begin (generator_move_assign two_generators_world 1 0) 0 =
     (returned (iterator None), generator_move_assign two_generators_world 1 0)"
    by simp
  from self[THEN conjunct2, THEN conjunct2, THEN conjunct2, THEN conjunct2, THEN conjunct1]
  have r4: "generator_move_assign two_generators_world 0 0 = two_generators_world" .
  from ne t g r1 r2 r3 r4 show ?thesis by simp
qed

section \<open>A generator and an adapted asynchronous generator yield the same sequence\<close>








section \<open>begin() of the adapter advances by one step\<close>













end
